theory Spec2Isabelle
  imports Main
begin

section \<open>Dashboard page: the server list and the port-conflict gate\<close>

text \<open>
  Source: \<^verbatim>\<open>panel/src/app/dashboard/page.tsx\<close>, component \<^verbatim>\<open>DashboardPage\<close> and
  its \<^verbatim>\<open>PortConflictDialog\<close>.

  \<^verbatim>\<open>ServerListItem\<close> is the interface of the same name. The field \<^verbatim>\<open>id\<close> is called
  \<open>sid\<close> here (\<open>id\<close> is the identity function of HOL) and the nested
  \<^verbatim>\<open>players: {online, max}\<close> is flattened into two fields.
\<close>

datatype server_status = Running | Stopped | Starting | Stopping

record ServerListItem =
  sid :: string
  name :: string
  motd :: string
  status :: server_status
  players_online :: int
  players_max :: int
  version :: string
  port :: string

text \<open>The \<^verbatim>\<open>action\<close> parameter of the dashboard's \<^verbatim>\<open>handleServerAction\<close>.\<close>

datatype action = Start | Stop

text \<open>
  Every \<^verbatim>\<open>fetch\<close> of the page is one of three requests. The trace of requests issued so
  far is threaded through the handlers, so "no network call" is a statement about the
  trace.
\<close>

datatype request =
    ControlPOST string action
  | ServerListGET
  | PropertiesPOST string string

text \<open>
  What the page reads of a response: \<^verbatim>\<open>response.ok\<close> and, for the server list, the result
  of \<^verbatim>\<open>await response.json()\<close> followed by \<^verbatim>\<open>data.servers\<close>. \<open>JsonThrows\<close> is a body for
  which that read throws; \<open>JsonData None\<close> is a body whose \<^verbatim>\<open>servers\<close> field is missing,
  so that \<^verbatim>\<open>data.servers || []\<close> is the empty list. \<open>FetchThrows\<close> is a rejected
  \<^verbatim>\<open>fetch\<close> promise.
\<close>

datatype json_body = JsonThrows | JsonData "ServerListItem list option"

datatype fetch_result = FetchThrows | Response bool json_body

text \<open>
  The backend is any deterministic function of the requests made so far (the last
  element is the request being answered).
\<close>

type_synonym network = "request list \<Rightarrow> fetch_result"

record PortConflict =
  isOpen :: bool
  conflictingServer :: "ServerListItem option"
  currentServer :: "ServerListItem option"

record page_state =
  servers :: "ServerListItem list"
  portConflict :: PortConflict

text \<open>
  A handler of a function component is a closure over the constants \<^verbatim>\<open>servers\<close> and
  \<^verbatim>\<open>portConflict\<close> of the render that created it: \<^verbatim>\<open>setServers\<close> and
  \<^verbatim>\<open>setPortConflict\<close> schedule the next render and leave those constants as they are.
  So each handler takes the render it belongs to (\<open>seen\<close>) and transforms the pair of
  the component state and the request trace. A click in the browser runs the handler of
  the latest render, that is with \<open>seen\<close> equal to the state it starts from.

  Both \<^verbatim>\<open>try\<close> blocks catch everything and only log, so a failure ends the handler with
  the state unchanged and the trace as it is at that point.
\<close>

definition handleServerAction ::
  "network \<Rightarrow> page_state \<Rightarrow> ServerListItem \<Rightarrow> action \<Rightarrow>
     page_state \<times> request list \<Rightarrow> page_state \<times> request list" where
  "handleServerAction net seen server act = (\<lambda>(st, tr).
     case (if act = Start
           then find (\<lambda>s. status s = Running \<and> port s = port server \<and> sid s \<noteq> sid server)
                  (servers seen)
           else None) of
       Some runningServer \<Rightarrow>
         (st\<lparr>portConflict :=
               \<lparr>isOpen = True, conflictingServer = Some runningServer,
                currentServer = Some server\<rparr>\<rparr>, tr)
     | None \<Rightarrow>
         (let tr1 = tr @ [ControlPOST (sid server) act] in
          case net tr1 of
            FetchThrows \<Rightarrow> (st, tr1)
          | Response ok _ \<Rightarrow>
              if ok then
                (let tr2 = tr1 @ [ServerListGET] in
                 case net tr2 of
                   FetchThrows \<Rightarrow> (st, tr2)
                 | Response _ body \<Rightarrow>
                     (case body of
                        JsonThrows \<Rightarrow> (st, tr2)
                      | JsonData sv \<Rightarrow>
                          (st\<lparr>servers := (case sv of None \<Rightarrow> [] | Some xs \<Rightarrow> xs)\<rparr>, tr2)))
              else (st, tr1)))"

text \<open>
  \<^verbatim>\<open>handleChangePort\<close> of \<^verbatim>\<open>DashboardPage\<close>. The server it restarts is
  \<^verbatim>\<open>portConflict.currentServer\<close> of its own render: the object stored when the dialog was
  opened, with the port it had then.
\<close>

definition handleChangePort ::
  "network \<Rightarrow> page_state \<Rightarrow> string \<Rightarrow>
     page_state \<times> request list \<Rightarrow> page_state \<times> request list" where
  "handleChangePort net seen newPort = (\<lambda>(st, tr).
     case currentServer (portConflict seen) of
       None \<Rightarrow> (st, tr)
     | Some cur \<Rightarrow>
         (let tr1 = tr @ [PropertiesPOST (sid cur) newPort] in
          case net tr1 of
            FetchThrows \<Rightarrow> (st, tr1)
          | Response ok _ \<Rightarrow>
              if ok then
                (let tr2 = tr1 @ [ServerListGET] in
                 case net tr2 of
                   FetchThrows \<Rightarrow> (st, tr2)
                 | Response _ body \<Rightarrow>
                     (case body of
                        JsonThrows \<Rightarrow> (st, tr2)
                      | JsonData sv \<Rightarrow>
                          handleServerAction net seen cur Start
                            (st\<lparr>servers := (case sv of None \<Rightarrow> [] | Some xs \<Rightarrow> xs)\<rparr>, tr2)))
              else (st, tr1)))"

text \<open>
  The dialog. Its local state is the text of the port input and the submitting flag.
  The "Change Port" button carries
  \<^verbatim>\<open>disabled={isSubmitting || !newPort || newPort === currentServer.port}\<close>; the input
  carries \<^verbatim>\<open>type="number" min="1024" max="65535"\<close>, attributes that only take part in
  the constraint validation of a form submission. The button is no submit button of a
  form: its \<^verbatim>\<open>onClick\<close> calls the handler directly with the text of the input.
  The dialog renders nothing unless both servers are defined, and its content only while
  \<^verbatim>\<open>isOpen\<close>.
\<close>

record dialog_state =
  newPortText :: string
  isSubmitting :: bool

definition changePortDisabled :: "dialog_state \<Rightarrow> ServerListItem \<Rightarrow> bool" where
  "changePortDisabled dlg cur \<longleftrightarrow>
     isSubmitting dlg \<or> newPortText dlg = [] \<or> newPortText dlg = port cur"

text \<open>
  \<^verbatim>\<open>onClose\<close> is \<^verbatim>\<open>() => setPortConflict({ isOpen: false })\<close>, run after the awaited
  \<^verbatim>\<open>onChangePort\<close> returns (it never throws: the page's handler catches everything).
\<close>

definition dialog_handleChangePort ::
  "network \<Rightarrow> page_state \<Rightarrow> dialog_state \<Rightarrow>
     page_state \<times> request list \<Rightarrow> page_state \<times> request list" where
  "dialog_handleChangePort net seen dlg = (\<lambda>(st, tr).
     case handleChangePort net seen (newPortText dlg) (st, tr) of
       (st', tr') \<Rightarrow>
         (st'\<lparr>portConflict :=
                \<lparr>isOpen = False, conflictingServer = None, currentServer = None\<rparr>\<rparr>, tr'))"

definition clickChangePort ::
  "network \<Rightarrow> page_state \<Rightarrow> dialog_state \<Rightarrow>
     page_state \<times> request list \<Rightarrow> page_state \<times> request list" where
  "clickChangePort net seen dlg = (\<lambda>(st, tr).
     case conflictingServer (portConflict seen) of
       None \<Rightarrow> (st, tr)
     | Some _ \<Rightarrow>
         (case currentServer (portConflict seen) of
            None \<Rightarrow> (st, tr)
          | Some cur \<Rightarrow>
              if isOpen (portConflict seen) then
                (if changePortDisabled dlg cur then (st, tr)
                 else dialog_handleChangePort net seen dlg (st, tr))
              else (st, tr)))"


section \<open>Console page: the log store and the live feed\<close>

text \<open>
  Source: the console page (\<^verbatim>\<open>ConsolePage\<close>), its subscribe effect
  (\<^verbatim>\<open>fetchInitialLogs\<close>, \<^verbatim>\<open>connectEventSource\<close> with the handlers \<^verbatim>\<open>onmessage\<close> and
  \<^verbatim>\<open>onerror\<close>, and the cleanup) and its \<^verbatim>\<open>handleServerAction\<close>.
\<close>

datatype log_type = LogInfo | LogWarning | LogError | LogCommand

record LogEntry =
  timestamp :: string
  entry_type :: log_type
  content :: string

text \<open>\<^verbatim>\<open>xs.slice(-n)\<close> for a positive \<open>n\<close>: the last \<open>n\<close> elements, all of them if there are fewer.\<close>

definition slice_last :: "nat \<Rightarrow> 'a list \<Rightarrow> 'a list" where
  "slice_last n xs = drop (length xs - n) xs"

text \<open>
  The body of \<^verbatim>\<open>data.logs.forEach\<close> inside the \<^verbatim>\<open>setLogs\<close> updater: the pair is
  \<^verbatim>\<open>(newLogs, updated)\<close>.
\<close>

definition isDuplicate :: "LogEntry list \<Rightarrow> LogEntry \<Rightarrow> bool" where
  "isDuplicate newLogs newLog =
     list_ex (\<lambda>log. timestamp log = timestamp newLog \<and> content log = content newLog) newLogs"

definition pushEntry :: "LogEntry list \<times> bool \<Rightarrow> LogEntry \<Rightarrow> LogEntry list \<times> bool" where
  "pushEntry = (\<lambda>(newLogs, updated) entry.
     if isDuplicate newLogs entry then (newLogs, updated) else (newLogs @ [entry], True))"

text \<open>
  The variables of one run of the subscribe effect, together with the \<^verbatim>\<open>logs\<close> state
  of the component. \<open>eventSource\<close> is the object the variable of that name refers to;
  \<open>opened\<close> records the \<^verbatim>\<open>since\<close> parameter of every \<^verbatim>\<open>new EventSource\<close>, in order;
  \<open>timers\<close> holds the delays of the pending \<^verbatim>\<open>setTimeout(connectEventSource, _)\<close>.
\<close>

record EventSource =
  since :: "string option"
  isClosed :: bool

record console_state =
  logs :: "LogEntry list"
  isComponentMounted :: bool
  lastTimestamp :: "string option"
  eventSource :: "EventSource option"
  opened :: "string option list"
  timers :: "nat list"

definition init_console :: console_state where
  "init_console =
     \<lparr>logs = [], isComponentMounted = True, lastTimestamp = None, eventSource = None,
      opened = [], timers = []\<rparr>"

text \<open>
  The answer to the backlog request: \<open>InitialFails\<close> is any path into the \<^verbatim>\<open>catch\<close>;
  \<open>InitialData lg lt\<close> carries \<^verbatim>\<open>data.logs\<close> (\<open>None\<close> when absent) and
  \<^verbatim>\<open>data.lastTimestamp\<close>.
\<close>

datatype initial_result = InitialFails | InitialData "LogEntry list option" "string option"

definition fetchInitialLogs :: "initial_result \<Rightarrow> console_state \<Rightarrow> console_state" where
  "fetchInitialLogs res s =
     (case res of
        InitialFails \<Rightarrow> s
      | InitialData lg lt \<Rightarrow>
          (case lg of
             None \<Rightarrow> s
           | Some l \<Rightarrow> if isComponentMounted s then s\<lparr>logs := l, lastTimestamp := lt\<rparr> else s))"

text \<open>\<^verbatim>\<open>if (lastTimestamp)\<close>: a null or empty cursor sets no \<^verbatim>\<open>since\<close> parameter.\<close>

definition sinceParam :: "string option \<Rightarrow> string option" where
  "sinceParam lt = (case lt of None \<Rightarrow> None | Some t \<Rightarrow> if t = [] then None else Some t)"

definition closeSource :: "EventSource option \<Rightarrow> EventSource option" where
  "closeSource es = map_option (\<lambda>c. c\<lparr>isClosed := True\<rparr>) es"

text \<open>
  \<^verbatim>\<open>connectEventSource\<close>. The flag \<open>throws\<close> says whether building the URL or the
  \<^verbatim>\<open>EventSource\<close> throws; the \<^verbatim>\<open>catch\<close> then schedules another attempt.
\<close>

definition connectEventSource :: "bool \<Rightarrow> console_state \<Rightarrow> console_state" where
  "connectEventSource throws s =
     (if isComponentMounted s then
        (let s1 = s\<lparr>eventSource := closeSource (eventSource s)\<rparr> in
         if throws then s1\<lparr>timers := timers s1 @ [5000]\<rparr>
         else s1\<lparr>eventSource := Some \<lparr>since = sinceParam (lastTimestamp s1), isClosed = False\<rparr>,
                 opened := opened s1 @ [sinceParam (lastTimestamp s1)]\<rparr>)
      else s)"

text \<open>
  A message of the feed: \<open>Unparsable\<close> when \<^verbatim>\<open>JSON.parse(event.data)\<close> or the read of
  \<^verbatim>\<open>data.logs\<close> throws, otherwise the value of \<^verbatim>\<open>data.logs\<close>. The \<^verbatim>\<open>setLogs\<close> updater
  is applied at once to the current \<^verbatim>\<open>logs\<close>.
\<close>

datatype stream_data = Unparsable | Payload "LogEntry list option"

definition onmessage :: "stream_data \<Rightarrow> console_state \<Rightarrow> console_state" where
  "onmessage msg s =
     (if isComponentMounted s then
        (case msg of
           Unparsable \<Rightarrow> s
         | Payload None \<Rightarrow> s
         | Payload (Some batch) \<Rightarrow>
             if 0 < length batch then
               (case foldl pushEntry (logs s, False) batch of
                  (newLogs, updated) \<Rightarrow>
                    if updated then
                      (let trimmedLogs = slice_last 1000 newLogs in
                       s\<lparr>logs := trimmedLogs,
                         lastTimestamp := Some (timestamp (last trimmedLogs))\<rparr>)
                    else s)
             else s)
      else s)"

definition onerror :: "console_state \<Rightarrow> console_state" where
  "onerror s =
     (if isComponentMounted s then
        (case eventSource s of
           None \<Rightarrow> s
         | Some c \<Rightarrow> s\<lparr>eventSource := Some (c\<lparr>isClosed := True\<rparr>), timers := timers s @ [5000]\<rparr>)
      else s)"

definition cleanup :: "console_state \<Rightarrow> console_state" where
  "cleanup s = s\<lparr>isComponentMounted := False, eventSource := closeSource (eventSource s)\<rparr>"

text \<open>
  \<^verbatim>\<open>handleServerAction\<close> of the console page. \<open>now1\<close> and \<open>now2\<close> are the two readings of
  \<^verbatim>\<open>new Date().toISOString()\<close>; the outcome of the control request is \<open>ControlThrows m\<close>
  (a rejected \<^verbatim>\<open>fetch\<close> or \<^verbatim>\<open>json()\<close> with message \<open>m\<close>), \<open>ControlNotOk\<close>
  (\<^verbatim>\<open>!response.ok\<close>) or \<open>ControlData success message\<close>.
\<close>

datatype console_action = CStart | CStop | CRestart | CForceStop

datatype control_result = ControlThrows string | ControlNotOk | ControlData bool "string option"

fun commandMessages :: "console_action \<Rightarrow> string" where
  "commandMessages CStart = ''Starting server...''"
| "commandMessages CStop = ''Stopping server...''"
| "commandMessages CRestart = ''Restarting server...''"
| "commandMessages CForceStop = ''Force stopping server...''"

fun action_text :: "console_action \<Rightarrow> string" where
  "action_text CStart = ''start''"
| "action_text CStop = ''stop''"
| "action_text CRestart = ''restart''"
| "action_text CForceStop = ''force-stop''"

definition appendLog :: "LogEntry \<Rightarrow> console_state \<Rightarrow> console_state" where
  "appendLog e s = s\<lparr>logs := logs s @ [e]\<rparr>"

definition failureEntry :: "string \<Rightarrow> console_action \<Rightarrow> string \<Rightarrow> LogEntry" where
  "failureEntry now act msg =
     \<lparr>timestamp = now, entry_type = LogError,
      content = ''Failed to '' @ action_text act @ '' server: '' @ msg\<rparr>"

definition console_handleServerAction ::
  "string \<Rightarrow> string \<Rightarrow> control_result \<Rightarrow> console_action \<Rightarrow> console_state \<Rightarrow> console_state" where
  "console_handleServerAction now1 now2 res act s =
     (let s1 = appendLog
                 \<lparr>timestamp = now1, entry_type = LogCommand, content = commandMessages act\<rparr> s
      in case res of
           ControlThrows msg \<Rightarrow> appendLog (failureEntry now2 act msg) s1
         | ControlNotOk \<Rightarrow> appendLog (failureEntry now2 act ''Failed to control server'') s1
         | ControlData success message \<Rightarrow>
             if success then
               appendLog
                 \<lparr>timestamp = now2, entry_type = LogInfo,
                  content = ''Server '' @ action_text act @ '' command sent successfully''\<rparr> s1
             else
               appendLog
                 (failureEntry now2 act
                    (case message of
                       None \<Rightarrow> ''Failed to control server''
                     | Some m \<Rightarrow> if m = [] then ''Failed to control server'' else m)) s1)"

text \<open>
  What can happen to one subscription, as events; a run is a fold of \<open>step\<close>.
  \<open>InitialLogs\<close> is the backlog request settling (followed by the first connect),
  \<open>TimerFires\<close> the oldest pending timer firing, \<open>Clear\<close> the "Clear" button.
\<close>

datatype event =
    InitialLogs initial_result bool
  | Message stream_data
  | StreamError
  | TimerFires bool
  | Cleanup
  | ServerAction string string control_result console_action
  | Clear

fun step :: "console_state \<Rightarrow> event \<Rightarrow> console_state" where
  "step s (InitialLogs res throws) =
     (let s1 = fetchInitialLogs res s in
      if isComponentMounted s1 then connectEventSource throws s1 else s1)"
| "step s (Message m) = onmessage m s"
| "step s StreamError = onerror s"
| "step s (TimerFires throws) =
     (case timers s of [] \<Rightarrow> s | d # ds \<Rightarrow> connectEventSource throws (s\<lparr>timers := ds\<rparr>))"
| "step s Cleanup = cleanup s"
| "step s (ServerAction now1 now2 res act) = console_handleServerAction now1 now2 res act s"
| "step s Clear = s\<lparr>logs := []\<rparr>"


section \<open>Console stream route: the event relay\<close>

text \<open>
  Source: the \<^verbatim>\<open>GET\<close> handler of the console stream route (the \<^verbatim>\<open>ReadableStream\<close>
  whose \<^verbatim>\<open>start\<close> reads the backend, piped through the \<^verbatim>\<open>TransformStream\<close>).

  \<^verbatim>\<open>text.split(sep)\<close> for a non-empty separator: scan from the left, cut at every
  occurrence, occurrences do not overlap.
\<close>

function splitOn :: "'a list \<Rightarrow> 'a list \<Rightarrow> 'a list \<Rightarrow> 'a list list" where
  "splitOn sep acc [] = [acc]"
| "splitOn sep acc (c # cs) =
     (if sep \<noteq> [] \<and> take (length sep) (c # cs) = sep
      then acc # splitOn sep [] (drop (length sep) (c # cs))
      else splitOn sep (acc @ [c]) cs)"
  by pat_completeness auto
termination
  by (relation "measure (\<lambda>(sep, acc, rest). length rest)") auto















section \<open>Socket route: the upgrade proxy\<close>

text \<open>
  Source: the \<^verbatim>\<open>GET\<close> handler of the WebSocket proxy route. Header values are byte
  strings; \<^verbatim>\<open>toLowerCase\<close> on them maps \<open>A\<close>..\<open>Z\<close> and the capital letters of Latin-1.
\<close>

definition lower_char :: "char \<Rightarrow> char" where
  "lower_char c =
     (let n = (of_char c :: nat) in
      if (65 \<le> n \<and> n \<le> 90) \<or> (192 \<le> n \<and> n \<le> 222 \<and> n \<noteq> 215) then char_of (n + 32) else c)"

definition toLowerCase :: "string \<Rightarrow> string" where
  "toLowerCase s = map lower_char s"

record ws_request =
  upgrade :: "string option"
  sec_websocket_key :: "string option"
  sec_websocket_version :: "string option"
  sec_websocket_protocol :: "string option"
  pathname :: string

record ws_call =
  ws_url :: string
  ws_headers :: "(string \<times> string) list"

datatype ws_upstream = WsThrows | WsResponse nat "string \<rightharpoonup> string"

record http_response =
  resp_status :: nat
  resp_body :: "string option"
  resp_headers :: "string \<rightharpoonup> string"

text \<open>
  \<^verbatim>\<open>new NextResponse(text, { status })\<close> with a string body: the \<^verbatim>\<open>Response\<close> constructor
  gives it the content type of a text body and no other header.
\<close>

definition text_response :: "nat \<Rightarrow> string \<Rightarrow> http_response" where
  "text_response st body =
     \<lparr>resp_status = st, resp_body = Some body,
      resp_headers = [''content-type'' \<mapsto> ''text/plain;charset=UTF-8'']\<rparr>"

text \<open>\<^verbatim>\<open>h ?? d\<close>: the default only for an absent header.\<close>

definition orDefault :: "string option \<Rightarrow> string \<Rightarrow> string" where
  "orDefault h d = (case h of None \<Rightarrow> d | Some v \<Rightarrow> v)"

text \<open>
  The arguments of the upstream \<^verbatim>\<open>fetch\<close>: the channel name is taken from the last
  non-empty segment of the path (\<^verbatim>\<open>pathSegments[pathSegments.length - 1]\<close> is undefined
  for an empty list, hence \<open>status\<close>).
\<close>

definition handshake_call :: "string \<Rightarrow> ws_request \<Rightarrow> ws_call" where
  "handshake_call serverId req =
     (let pathSegments = filter (\<lambda>seg. seg \<noteq> []) (splitOn ''/'' [] (pathname req));
          messageType =
            (if pathSegments \<noteq> [] \<and> last pathSegments = ''console''
             then ''console'' else ''status'');
          wsUrl = ''ws://localhost:8765/'' @ serverId @ ''/'' @ messageType
      in \<lparr>ws_url = wsUrl,
          ws_headers =
            [(''Upgrade'', ''websocket''),
             (''Connection'', ''Upgrade''),
             (''Sec-WebSocket-Key'', orDefault (sec_websocket_key req) []),
             (''Sec-WebSocket-Version'', orDefault (sec_websocket_version req) ''13''),
             (''Sec-WebSocket-Protocol'', orDefault (sec_websocket_protocol req) [])]\<rparr>)"

text \<open>
  The handler returns its response together with the upstream calls it made, \<open>up\<close>
  being the backend's answer to a call (\<open>WsThrows\<close> a rejected \<^verbatim>\<open>fetch\<close>). On an
  upstream status 101 the handler copies the headers and calls
  \<^verbatim>\<open>new NextResponse(null, { status: 101, headers })\<close>; the \<^verbatim>\<open>Response\<close> constructor
  accepts a status from 200 to 599 only and throws a \<^verbatim>\<open>RangeError\<close>, so this path ends in
  the \<^verbatim>\<open>catch\<close> like a rejected \<^verbatim>\<open>fetch\<close>, with status 500.
\<close>

definition GET_ws ::
  "(ws_call \<Rightarrow> ws_upstream) \<Rightarrow> string \<Rightarrow> ws_request \<Rightarrow> http_response \<times> ws_call list" where
  "GET_ws up serverId req =
     (if (case upgrade req of None \<Rightarrow> True
          | Some h \<Rightarrow> h = [] \<or> toLowerCase h \<noteq> ''websocket'')
      then (text_response 426 ''Expected Upgrade: websocket'', [])
      else
        (let call = handshake_call serverId req
         in case up call of
              WsThrows \<Rightarrow> (text_response 500 ''Failed to connect to WebSocket server'', [call])
            | WsResponse st hs \<Rightarrow>
                if st \<noteq> 101 then (text_response 502 ''Failed to upgrade connection'', [call])
                else (text_response 500 ''Failed to connect to WebSocket server'', [call])))"

section \<open>Concrete scenarios\<close>

text \<open>
  Two servers on port 25565, \<open>X\<close> running and \<open>Y\<close> stopped, and a backend that accepts
  every request and lists \<open>Y\<close> with port 25566 once asked.
\<close>

definition serverX :: ServerListItem where
  "serverX =
     \<lparr>sid = ''x'', name = ''X'', motd = ''A Minecraft Server'', status = Running,
      players_online = 0, players_max = 20, version = ''1.20.4'', port = ''25565''\<rparr>"

definition serverY :: ServerListItem where
  "serverY =
     \<lparr>sid = ''y'', name = ''Y'', motd = ''A Minecraft Server'', status = Stopped,
      players_online = 0, players_max = 20, version = ''1.20.4'', port = ''25565''\<rparr>"

definition closedConflict :: PortConflict where
  "closedConflict = \<lparr>isOpen = False, conflictingServer = None, currentServer = None\<rparr>"

definition pageB :: page_state where
  "pageB = \<lparr>servers = [serverX, serverY], portConflict = closedConflict\<rparr>"

definition backendB :: network where
  "backendB tr =
     (case rev tr of
        [] \<Rightarrow> FetchThrows
      | r # _ \<Rightarrow>
          (case r of
             ServerListGET \<Rightarrow>
               Response True (JsonData (Some [serverX, serverY\<lparr>port := ''25566''\<rparr>]))
           | ControlPOST _ _ \<Rightarrow> Response True (JsonData None)
           | PropertiesPOST _ _ \<Rightarrow> Response True (JsonData None)))"

text \<open>The dialog as \<^verbatim>\<open>handleServerAction\<close> opens it when \<open>Y\<close> is started on \<open>pageB\<close>.\<close>

definition pageB_conflict :: page_state where
  "pageB_conflict =
     pageB\<lparr>portConflict :=
             \<lparr>isOpen = True, conflictingServer = Some serverX, currentServer = Some serverY\<rparr>\<rparr>"

text \<open>Two stopped servers on one port, and a backend that reports the first as starting.\<close>

definition serverP :: ServerListItem where
  "serverP = serverX\<lparr>sid := ''p'', name := ''P'', status := Stopped\<rparr>"

definition serverQ :: ServerListItem where
  "serverQ = serverX\<lparr>sid := ''q'', name := ''Q'', status := Stopped\<rparr>"

definition backendPQ :: network where
  "backendPQ tr =
     (case rev tr of
        [] \<Rightarrow> FetchThrows
      | r # _ \<Rightarrow>
          (case r of
             ServerListGET \<Rightarrow>
               Response True (JsonData (Some [serverP\<lparr>status := Starting\<rparr>, serverQ]))
           | ControlPOST _ _ \<Rightarrow> Response True (JsonData None)
           | PropertiesPOST _ _ \<Rightarrow> Response True (JsonData None)))"

text \<open>Log entries \<open>a@1\<close>, \<open>b@2\<close>, \<open>c@3\<close>, and a thousand pairwise different lines.\<close>

definition entryA :: LogEntry where
  "entryA = \<lparr>timestamp = ''1'', entry_type = LogInfo, content = ''a''\<rparr>"

definition entryB :: LogEntry where
  "entryB = \<lparr>timestamp = ''2'', entry_type = LogInfo, content = ''b''\<rparr>"

definition entryC :: LogEntry where
  "entryC = \<lparr>timestamp = ''3'', entry_type = LogInfo, content = ''c''\<rparr>"

definition entryD :: LogEntry where
  "entryD = \<lparr>timestamp = ''4'', entry_type = LogWarning, content = ''d''\<rparr>"

text \<open>
  The subscription after a failed backlog request, the first connect and the three
  messages \<open>[a@1]\<close>, \<open>[b@2]\<close>, \<open>[c@3]\<close>.
\<close>

definition consoleC :: console_state where
  "consoleC =
     \<lparr>logs = [entryA, entryB, entryC], isComponentMounted = True, lastTimestamp = Some ''3'',
      eventSource = Some \<lparr>since = None, isClosed = False\<rparr>, opened = [None], timers = []\<rparr>"

definition numbered_line :: "nat \<Rightarrow> LogEntry" where
  "numbered_line n =
     \<lparr>timestamp = ''2025-01-01T00:00:00.000Z'', entry_type = LogInfo,
      content = replicate (Suc n) (CHR ''x'')\<rparr>"

definition thousand_lines :: "LogEntry list" where
  "thousand_lines = map numbered_line [0..<1000]"








text \<open>
  A request without an \<^verbatim>\<open>Upgrade\<close> header, an upgrade request for the console socket,
  and an upstream that refuses every handshake.
\<close>

definition plain_request :: ws_request where
  "plain_request =
     \<lparr>upgrade = None, sec_websocket_key = None, sec_websocket_version = None,
      sec_websocket_protocol = None, pathname = ''/api/server/abc/ws''\<rparr>"

definition upgrade_request :: ws_request where
  "upgrade_request =
     \<lparr>upgrade = Some ''WebSocket'', sec_websocket_key = Some ''dGhlIHNhbXBsZSBub25jZQ=='',
      sec_websocket_version = Some ''13'', sec_websocket_protocol = None,
      pathname = ''/api/server/abc/ws/console''\<rparr>"

definition refusing_upstream :: "ws_call \<Rightarrow> ws_upstream" where
  "refusing_upstream call = WsResponse 403 Map.empty"

section \<open>The start gate of the dashboard\<close>

lemma start_conflict:
  assumes "find (\<lambda>s. status s = Running \<and> port s = port S \<and> sid s \<noteq> sid S) (servers seen) = Some T"
  shows "handleServerAction net seen S Start (st, tr) =
      (st\<lparr>portConflict := \<lparr>isOpen = True, conflictingServer = Some T, currentServer = Some S\<rparr>\<rparr>, tr)"
  using assms by (simp add: handleServerAction_def)

lemma start_no_conflict:
  assumes "find (\<lambda>s. status s = Running \<and> port s = port S \<and> sid s \<noteq> sid S) (servers seen) = None"
  shows "portConflict (fst (handleServerAction net seen S Start (st, tr))) = portConflict st"
    and "take (Suc (length tr)) (snd (handleServerAction net seen S Start (st, tr))) = tr @ [ControlPOST (sid S) Start]"
  using assms by (auto simp add: handleServerAction_def Let_def split: fetch_result.splits json_body.splits option.splits)

text \<open>
  Claim C1. A start request for a server \<open>S\<close>, handled with the server list of the
  render \<open>seen\<close>: if the list holds another server (a different id) that is running on
  the port of \<open>S\<close>, the handler issues no request at all (the trace is returned as it
  was) and opens the conflict state with such a server as \<open>conflictingServer\<close> (the first
  one in the list) and \<open>S\<close> as \<open>currentServer\<close>; if the list holds no such server, the
  conflict state is left alone and the next request issued is the start command for
  \<open>S\<close>.
\<close>

theorem handleServerAction_start_gate:
  "((\<exists>T \<in> set (servers seen). sid T \<noteq> sid S \<and> status T = Running \<and> port T = port S) \<longrightarrow>
      (\<exists>i < length (servers seen).
         sid (servers seen ! i) \<noteq> sid S \<and> status (servers seen ! i) = Running \<and>
         port (servers seen ! i) = port S \<and>
         (\<forall>j < i. \<not> (sid (servers seen ! j) \<noteq> sid S \<and> status (servers seen ! j) = Running \<and>
                         port (servers seen ! j) = port S)) \<and>
         handleServerAction net seen S Start (st, tr) =
           (st\<lparr>portConflict :=
                 \<lparr>isOpen = True, conflictingServer = Some (servers seen ! i),
                  currentServer = Some S\<rparr>\<rparr>, tr)))
   \<and> (\<not> (\<exists>T \<in> set (servers seen). sid T \<noteq> sid S \<and> status T = Running \<and> port T = port S) \<longrightarrow>
        portConflict (fst (handleServerAction net seen S Start (st, tr))) = portConflict st \<and>
        take (Suc (length tr)) (snd (handleServerAction net seen S Start (st, tr))) =
          tr @ [ControlPOST (sid S) Start])"
proof -
  let ?P = "\<lambda>s. status s = Running \<and> port s = port S \<and> sid s \<noteq> sid S"
  show ?thesis
  proof (cases "find ?P (servers seen)")
    case None
    then have "\<not> (\<exists>T \<in> set (servers seen). sid T \<noteq> sid S \<and> status T = Running \<and> port T = port S)"
      by (auto simp: find_None_iff)
    moreover note start_no_conflict(1) [OF None, of net st tr] start_no_conflict(2) [OF None, of tr net st]
    ultimately show ?thesis by blast
  next
    case (Some T)
    then have "\<exists>i < length (servers seen). ?P (servers seen ! i) \<and> T = servers seen ! i \<and>
        (\<forall>j < i. \<not> ?P (servers seen ! j))"
      by (simp only: find_Some_iff)
    then obtain i where len: "i < length (servers seen)" and hit: "?P (servers seen ! i)"
      and T: "T = servers seen ! i" and first: "\<forall>j < i. \<not> ?P (servers seen ! j)"
      by (elim exE conjE) simp
    from len have mem: "servers seen ! i \<in> set (servers seen)" by simp
    have run: "handleServerAction net seen S Start (st, tr) =
        (st\<lparr>portConflict :=
              \<lparr>isOpen = True, conflictingServer = Some (servers seen ! i),
               currentServer = Some S\<rparr>\<rparr>, tr)"
      using start_conflict [OF Some, of net st tr] by (simp only: T)
    have earlier: "\<forall>j < i. \<not> (sid (servers seen ! j) \<noteq> sid S \<and>
        status (servers seen ! j) = Running \<and> port (servers seen ! j) = port S)"
      using first by blast
    have found: "\<exists>i < length (servers seen).
         sid (servers seen ! i) \<noteq> sid S \<and> status (servers seen ! i) = Running \<and>
         port (servers seen ! i) = port S \<and>
         (\<forall>j < i. \<not> (sid (servers seen ! j) \<noteq> sid S \<and> status (servers seen ! j) = Running \<and>
                         port (servers seen ! j) = port S)) \<and>
         handleServerAction net seen S Start (st, tr) =
           (st\<lparr>portConflict :=
                 \<lparr>isOpen = True, conflictingServer = Some (servers seen ! i),
                  currentServer = Some S\<rparr>\<rparr>, tr)"
      using len hit earlier run by (intro exI [of _ i] conjI) simp_all
    have some: "\<exists>T \<in> set (servers seen). sid T \<noteq> sid S \<and> status T = Running \<and> port T = port S"
      using mem hit by (intro bexI [of _ "servers seen ! i"]) simp_all
    from found some show ?thesis by simp
  qed
qed


text \<open>
  The gate on the two scenarios: starting \<open>Y\<close> while \<open>X\<close> runs on its port opens the
  dialog and sends nothing; starting \<open>P\<close> beside the stopped \<open>Q\<close> sends the command.
\<close>

theorem handleServerAction_start_gate_witness:
  "handleServerAction backendB pageB serverY Start (pageB, []) = (pageB_conflict, []) \<and>
   portConflict (fst (handleServerAction backendPQ \<lparr>servers = [serverP, serverQ], portConflict = closedConflict\<rparr>
       serverP Start (\<lparr>servers = [serverP, serverQ], portConflict = closedConflict\<rparr>, []))) = closedConflict \<and>
   take 1 (snd (handleServerAction backendPQ \<lparr>servers = [serverP, serverQ], portConflict = closedConflict\<rparr>
       serverP Start (\<lparr>servers = [serverP, serverQ], portConflict = closedConflict\<rparr>, []))) =
     [ControlPOST ''p'' Start]"
proof -
  have present: "\<exists>T \<in> set (servers pageB). sid T \<noteq> sid serverY \<and> status T = Running \<and> port T = port serverY"
    by (simp add: pageB_def serverX_def serverY_def)
  have absent: "\<not> (\<exists>T \<in> set (servers \<lparr>servers = [serverP, serverQ], portConflict = closedConflict\<rparr>).
      sid T \<noteq> sid serverP \<and> status T = Running \<and> port T = port serverP)"
    by (simp add: serverP_def serverQ_def serverX_def)
  from present handleServerAction_start_gate [of pageB serverY backendB pageB "[]"]
  obtain i where i: "i < length (servers pageB)" "sid (servers pageB ! i) \<noteq> sid serverY"
    and eq: "handleServerAction backendB pageB serverY Start (pageB, []) =
           (pageB\<lparr>portConflict :=
                 \<lparr>isOpen = True, conflictingServer = Some (servers pageB ! i),
                  currentServer = Some serverY\<rparr>\<rparr>, [])"
    by blast
  have two: "servers pageB = [serverX, serverY]" by (simp add: pageB_def)
  from i(1) have "i = 0 \<or> i = 1" by (simp only: two) (simp add: less_Suc_eq)
  moreover have "i \<noteq> 1" using i(2) by (auto simp only: two) simp
  ultimately have "i = 0" by simp
  then have "servers pageB ! i = serverX" by (simp add: two)
  with eq have first: "handleServerAction backendB pageB serverY Start (pageB, []) = (pageB_conflict, [])"
    by (simp add: pageB_conflict_def)
  from absent handleServerAction_start_gate
    [of "\<lparr>servers = [serverP, serverQ], portConflict = closedConflict\<rparr>" serverP backendPQ
        "\<lparr>servers = [serverP, serverQ], portConflict = closedConflict\<rparr>" "[]"]
  have second: "portConflict (fst (handleServerAction backendPQ \<lparr>servers = [serverP, serverQ], portConflict = closedConflict\<rparr>
       serverP Start (\<lparr>servers = [serverP, serverQ], portConflict = closedConflict\<rparr>, []))) = closedConflict \<and>
   take 1 (snd (handleServerAction backendPQ \<lparr>servers = [serverP, serverQ], portConflict = closedConflict\<rparr>
       serverP Start (\<lparr>servers = [serverP, serverQ], portConflict = closedConflict\<rparr>, []))) =
     [ControlPOST ''p'' Start]"
    by (simp add: serverP_def)
  from first second show ?thesis by simp
qed

lemma find_running_filter:
  "find (\<lambda>s. status s = Running \<and> Q s) xs = find (\<lambda>s. status s = Running \<and> Q s) (filter (\<lambda>s. status s = Running) xs)"
  by (induction xs) auto

text \<open>
  Claim C10. The scan of \<^verbatim>\<open>handleServerAction\<close> matches running servers only. A server
  \<open>T\<close> on the port of \<open>S\<close> with another id that is starting or stopping is no conflict:
  with no running server on that port in the list, the dialog is not opened and the
  start command for \<open>S\<close> is the next request. The handler does the same on the list
  with every server that is not running removed. Hence two servers \<open>P\<close> and \<open>Q\<close> sharing
  a port, neither running, are both commanded to start, \<open>Q\<close> while the list shows \<open>P\<close>
  as starting.
\<close>

theorem conflict_scan_only_running:
  "(T \<in> set (servers seen) \<and> sid T \<noteq> sid S \<and> port T = port S \<and>
      (status T = Starting \<or> status T = Stopping) \<and>
      \<not> (\<exists>U \<in> set (servers seen). sid U \<noteq> sid S \<and> status U = Running \<and> port U = port S) \<longrightarrow>
      portConflict (fst (handleServerAction net seen S Start (st, tr))) = portConflict st \<and>
      take (Suc (length tr)) (snd (handleServerAction net seen S Start (st, tr))) =
        tr @ [ControlPOST (sid S) Start])
   \<and> handleServerAction net seen S Start (st, tr) =
       handleServerAction net (seen\<lparr>servers := filter (\<lambda>s. status s = Running) (servers seen)\<rparr>) S Start (st, tr)
   \<and> (sid P \<noteq> sid Q \<and> port P = port Q \<and> status P \<noteq> Running \<and> status Q \<noteq> Running \<and>
      net [ControlPOST (sid P) Start] = Response True b \<and>
      net [ControlPOST (sid P) Start, ServerListGET] =
        Response ok (JsonData (Some [P\<lparr>status := Starting\<rparr>, Q])) \<longrightarrow>
      (case handleServerAction net \<lparr>servers = [P, Q], portConflict = pc\<rparr> P Start
              (\<lparr>servers = [P, Q], portConflict = pc\<rparr>, []) of
         (st1, tr1) \<Rightarrow>
           st1 = \<lparr>servers = [P\<lparr>status := Starting\<rparr>, Q], portConflict = pc\<rparr> \<and>
           tr1 = [ControlPOST (sid P) Start, ServerListGET] \<and>
           portConflict (fst (handleServerAction net st1 Q Start (st1, tr1))) = pc \<and>
           take 3 (snd (handleServerAction net st1 Q Start (st1, tr1))) =
             [ControlPOST (sid P) Start, ServerListGET, ControlPOST (sid Q) Start]))"
proof (intro conjI impI)
  let ?P = "\<lambda>s. status s = Running \<and> port s = port S \<and> sid s \<noteq> sid S"
  assume a: "T \<in> set (servers seen) \<and> sid T \<noteq> sid S \<and> port T = port S \<and>
      (status T = Starting \<or> status T = Stopping) \<and>
      \<not> (\<exists>U \<in> set (servers seen). sid U \<noteq> sid S \<and> status U = Running \<and> port U = port S)"
  then have N: "find ?P (servers seen) = None" by (auto simp: find_None_iff)
  show "portConflict (fst (handleServerAction net seen S Start (st, tr))) = portConflict st"
    by (rule start_no_conflict(1) [OF N])
  show "take (Suc (length tr)) (snd (handleServerAction net seen S Start (st, tr))) =
        tr @ [ControlPOST (sid S) Start]"
    by (rule start_no_conflict(2) [OF N])
next
  show "handleServerAction net seen S Start (st, tr) =
       handleServerAction net (seen\<lparr>servers := filter (\<lambda>s. status s = Running) (servers seen)\<rparr>) S Start (st, tr)"
    using find_running_filter [of "\<lambda>s. port s = port S \<and> sid s \<noteq> sid S" "servers seen"]
    by (simp add: handleServerAction_def)
next
  assume b: "sid P \<noteq> sid Q \<and> port P = port Q \<and> status P \<noteq> Running \<and> status Q \<noteq> Running \<and>
      net [ControlPOST (sid P) Start] = Response True b \<and>
      net [ControlPOST (sid P) Start, ServerListGET] =
        Response ok (JsonData (Some [P\<lparr>status := Starting\<rparr>, Q]))"
  let ?st0 = "\<lparr>servers = [P, Q], portConflict = pc\<rparr>"
  let ?st1 = "\<lparr>servers = [P\<lparr>status := Starting\<rparr>, Q], portConflict = pc\<rparr>"
  let ?tr1 = "[ControlPOST (sid P) Start, ServerListGET]"
  have first: "handleServerAction net ?st0 P Start (?st0, []) = (?st1, ?tr1)"
    using b by (simp add: handleServerAction_def)
  have N: "find (\<lambda>s. status s = Running \<and> port s = port Q \<and> sid s \<noteq> sid Q) (servers ?st1) = None"
    using b by simp
  have "portConflict (fst (handleServerAction net ?st1 Q Start (?st1, ?tr1))) = pc"
    using start_no_conflict(1) [OF N, of net ?st1 ?tr1] by simp
  moreover have "take 3 (snd (handleServerAction net ?st1 Q Start (?st1, ?tr1))) =
             [ControlPOST (sid P) Start, ServerListGET, ControlPOST (sid Q) Start]"
    using start_no_conflict(2) [OF N, of ?tr1 net ?st1] by (simp add: numeral_3_eq_3)
  ultimately show "case handleServerAction net ?st0 P Start (?st0, []) of
         (st1, tr1) \<Rightarrow>
           st1 = ?st1 \<and>
           tr1 = [ControlPOST (sid P) Start, ServerListGET] \<and>
           portConflict (fst (handleServerAction net st1 Q Start (st1, tr1))) = pc \<and>
           take 3 (snd (handleServerAction net st1 Q Start (st1, tr1))) =
             [ControlPOST (sid P) Start, ServerListGET, ControlPOST (sid Q) Start]"
    by (simp add: first)
qed

text \<open>The scenario of \<open>P\<close> and \<open>Q\<close>: three requests, the first and the third a start.\<close>

theorem conflict_scan_only_running_witness:
  "handleServerAction backendPQ \<lparr>servers = [serverP, serverQ], portConflict = closedConflict\<rparr> serverP Start
      (\<lparr>servers = [serverP, serverQ], portConflict = closedConflict\<rparr>, []) =
     (\<lparr>servers = [serverP\<lparr>status := Starting\<rparr>, serverQ], portConflict = closedConflict\<rparr>,
      [ControlPOST ''p'' Start, ServerListGET]) \<and>
   portConflict (fst (handleServerAction backendPQ
      \<lparr>servers = [serverP\<lparr>status := Starting\<rparr>, serverQ], portConflict = closedConflict\<rparr> serverQ Start
      (\<lparr>servers = [serverP\<lparr>status := Starting\<rparr>, serverQ], portConflict = closedConflict\<rparr>,
       [ControlPOST ''p'' Start, ServerListGET]))) = closedConflict \<and>
   take 3 (snd (handleServerAction backendPQ
      \<lparr>servers = [serverP\<lparr>status := Starting\<rparr>, serverQ], portConflict = closedConflict\<rparr> serverQ Start
      (\<lparr>servers = [serverP\<lparr>status := Starting\<rparr>, serverQ], portConflict = closedConflict\<rparr>,
       [ControlPOST ''p'' Start, ServerListGET]))) =
     [ControlPOST ''p'' Start, ServerListGET, ControlPOST ''q'' Start]"
proof -
  let ?st1 = "\<lparr>servers = [serverP\<lparr>status := Starting\<rparr>, serverQ], portConflict = closedConflict\<rparr>"
  have transitional: "serverP\<lparr>status := Starting\<rparr> \<in> set (servers ?st1) \<and>
      sid (serverP\<lparr>status := Starting\<rparr>) \<noteq> sid serverQ \<and>
      port (serverP\<lparr>status := Starting\<rparr>) = port serverQ \<and>
      (status (serverP\<lparr>status := Starting\<rparr>) = Starting \<or> status (serverP\<lparr>status := Starting\<rparr>) = Stopping) \<and>
      \<not> (\<exists>U \<in> set (servers ?st1). sid U \<noteq> sid serverQ \<and> status U = Running \<and> port U = port serverQ)"
    by (simp add: serverP_def serverQ_def serverX_def)
  have two: "sid serverP \<noteq> sid serverQ \<and> port serverP = port serverQ \<and>
      status serverP \<noteq> Running \<and> status serverQ \<noteq> Running \<and>
      backendPQ [ControlPOST (sid serverP) Start] = Response True (JsonData None) \<and>
      backendPQ [ControlPOST (sid serverP) Start, ServerListGET] =
        Response True (JsonData (Some [serverP\<lparr>status := Starting\<rparr>, serverQ]))"
    by (simp add: serverP_def serverQ_def serverX_def backendPQ_def)
  note inst = conflict_scan_only_running
    [of "serverP\<lparr>status := Starting\<rparr>" ?st1 serverQ backendPQ ?st1
        "[ControlPOST ''p'' Start, ServerListGET]" serverP serverQ "JsonData None" True closedConflict]
  have "portConflict (fst (handleServerAction backendPQ ?st1 serverQ Start
        (?st1, [ControlPOST ''p'' Start, ServerListGET]))) = portConflict ?st1 \<and>
     take (Suc (length [ControlPOST ''p'' Start, ServerListGET]))
       (snd (handleServerAction backendPQ ?st1 serverQ Start
        (?st1, [ControlPOST ''p'' Start, ServerListGET]))) =
       [ControlPOST ''p'' Start, ServerListGET] @ [ControlPOST (sid serverQ) Start]"
    by (rule mp [OF inst [THEN conjunct1] transitional])
  then have second: "portConflict (fst (handleServerAction backendPQ ?st1 serverQ Start
        (?st1, [ControlPOST ''p'' Start, ServerListGET]))) = closedConflict \<and>
     take 3 (snd (handleServerAction backendPQ ?st1 serverQ Start
        (?st1, [ControlPOST ''p'' Start, ServerListGET]))) =
       [ControlPOST ''p'' Start, ServerListGET, ControlPOST ''q'' Start]"
    by (simp add: serverQ_def numeral_3_eq_3)
  have "case handleServerAction backendPQ \<lparr>servers = [serverP, serverQ], portConflict = closedConflict\<rparr>
          serverP Start (\<lparr>servers = [serverP, serverQ], portConflict = closedConflict\<rparr>, []) of
         (st1, tr1) \<Rightarrow>
           st1 = ?st1 \<and>
           tr1 = [ControlPOST (sid serverP) Start, ServerListGET] \<and>
           portConflict (fst (handleServerAction backendPQ st1 serverQ Start (st1, tr1))) = closedConflict \<and>
           take 3 (snd (handleServerAction backendPQ st1 serverQ Start (st1, tr1))) =
             [ControlPOST (sid serverP) Start, ServerListGET, ControlPOST (sid serverQ) Start]"
    by (rule mp [OF inst [THEN conjunct2, THEN conjunct2] two])
  then have first: "handleServerAction backendPQ \<lparr>servers = [serverP, serverQ], portConflict = closedConflict\<rparr> serverP Start
      (\<lparr>servers = [serverP, serverQ], portConflict = closedConflict\<rparr>, []) =
     (?st1, [ControlPOST ''p'' Start, ServerListGET])"
    by (simp add: serverP_def split: prod.splits)
  from first second show ?thesis by simp
qed

section \<open>Changing the port in the conflict dialog\<close>

text \<open>
  Claim C2, on the scenario of \<open>X\<close> (running, port 25565) and \<open>Y\<close> (stopped, port
  25565). Starting \<open>Y\<close> opens the dialog. Submitting 25566 posts the new port for \<open>Y\<close>
  and reads the server list again; the start that follows is given the server object
  stored in the conflict state, which still carries port 25565, and the list of the
  handler's own render, so the gate finds \<open>X\<close> again and sends no start command; the
  dialog's \<^verbatim>\<open>onClose\<close> then closes the conflict state. The trace ends with the two
  requests shown.
\<close>

theorem change_port_start_blocked:
  "handleServerAction backendB pageB serverY Start (pageB, []) = (pageB_conflict, []) \<and>
   clickChangePort backendB pageB_conflict \<lparr>newPortText = ''25566'', isSubmitting = False\<rparr>
       (pageB_conflict, []) =
     (\<lparr>servers = [serverX, serverY\<lparr>port := ''25566''\<rparr>], portConflict = closedConflict\<rparr>,
      [PropertiesPOST ''y'' ''25566'', ServerListGET])"
  by (simp add: handleServerAction_def handleChangePort_def clickChangePort_def
      dialog_handleChangePort_def changePortDisabled_def pageB_def pageB_conflict_def
      serverX_def serverY_def backendB_def closedConflict_def)

text \<open>
  Claim C9, on the same dialog. The button is enabled for the texts 80 and 70000 (not
  empty, not the current port), and the click posts each of them as the new port,
  whatever the backend answers: no check of the range stands between the input and the
  request.
\<close>

theorem out_of_range_port_is_posted:
  "\<not> changePortDisabled \<lparr>newPortText = ''80'', isSubmitting = False\<rparr> serverY \<and>
   take 1 (snd (clickChangePort net pageB_conflict \<lparr>newPortText = ''80'', isSubmitting = False\<rparr>
       (pageB_conflict, []))) = [PropertiesPOST ''y'' ''80''] \<and>
   take 1 (snd (clickChangePort net pageB_conflict \<lparr>newPortText = ''70000'', isSubmitting = False\<rparr>
       (pageB_conflict, []))) = [PropertiesPOST ''y'' ''70000'']"
  by (simp add: handleServerAction_def handleChangePort_def clickChangePort_def
      dialog_handleChangePort_def changePortDisabled_def pageB_def pageB_conflict_def
      serverX_def serverY_def closedConflict_def Let_def
      split: fetch_result.split json_body.split option.split prod.split)


section \<open>The log store\<close>

lemma isDuplicate_iff:
  "isDuplicate xs e \<longleftrightarrow> (\<exists>x \<in> set xs. timestamp x = timestamp e \<and> content x = content e)"
  by (simp add: isDuplicate_def list_ex_iff)

lemma isDuplicate_key:
  "isDuplicate xs e \<longleftrightarrow> (timestamp e, content e) \<in> (\<lambda>x. (timestamp x, content x)) ` set xs"
  by (simp add: isDuplicate_iff image_iff) metis

lemma pushEntry_apply:
  "pushEntry (xs, u) e = (if isDuplicate xs e then (xs, u) else (xs @ [e], True))"
  by (simp add: pushEntry_def)

lemma pushEntry_fst:
  "fst (pushEntry acc e) = (if isDuplicate (fst acc) e then fst acc else fst acc @ [e])"
  by (cases acc) (simp add: pushEntry_def)

lemma pushEntry_snd:
  "snd (pushEntry acc e) = (snd acc \<or> \<not> isDuplicate (fst acc) e)"
  by (cases acc) (simp add: pushEntry_def)

lemma merge_keys:
  "(\<lambda>x. (timestamp x, content x)) ` set (fst (foldl pushEntry (prev, u) batch)) =
   (\<lambda>x. (timestamp x, content x)) ` (set prev \<union> set batch)"
proof (induction batch rule: rev_induct)
  case Nil
  show ?case by simp
next
  case (snoc b bs)
  show ?case
  proof (cases "isDuplicate (fst (foldl pushEntry (prev, u) bs)) b")
    case True
    then have "(timestamp b, content b) \<in> (\<lambda>x. (timestamp x, content x)) ` (set prev \<union> set bs)"
      using snoc.IH by (simp add: isDuplicate_key)
    with True snoc.IH show ?thesis
      by (auto simp: pushEntry_fst)
  next
    case False
    with snoc.IH show ?thesis
      by (simp add: pushEntry_fst image_Un)
  qed
qed

lemma merge_isDuplicate:
  "isDuplicate (fst (foldl pushEntry (prev, u) batch)) e \<longleftrightarrow>
     (\<exists>x \<in> set prev \<union> set batch. timestamp x = timestamp e \<and> content x = content e)"
proof -
  have "isDuplicate (fst (foldl pushEntry (prev, u) batch)) e \<longleftrightarrow>
      (timestamp e, content e) \<in> (\<lambda>x. (timestamp x, content x)) ` (set prev \<union> set batch)"
    by (simp only: isDuplicate_key merge_keys)
  then show ?thesis by (simp add: image_iff) metis
qed

lemma merge_all_duplicates:
  "list_all (isDuplicate prev) batch \<Longrightarrow> foldl pushEntry (prev, u) batch = (prev, u)"
  by (induction batch rule: rev_induct) (simp_all add: pushEntry_apply)

lemma merge_extends:
  "\<exists>news. fst (foldl pushEntry (prev, u) batch) = prev @ news \<and> set news \<subseteq> set batch \<and>
      snd (foldl pushEntry (prev, u) batch) = (u \<or> news \<noteq> [])"
proof (induction batch rule: rev_induct)
  case Nil
  show ?case by simp
next
  case (snoc b bs)
  then obtain news where n: "fst (foldl pushEntry (prev, u) bs) = prev @ news" "set news \<subseteq> set bs"
     "snd (foldl pushEntry (prev, u) bs) = (u \<or> news \<noteq> [])" by blast
  show ?case
  proof (cases "isDuplicate (fst (foldl pushEntry (prev, u) bs)) b")
    case True
    with n show ?thesis
      by (intro exI [of _ news]) (auto simp: pushEntry_fst pushEntry_snd)
  next
    case False
    with n show ?thesis
      by (intro exI [of _ "news @ [b]"]) (auto simp: pushEntry_fst pushEntry_snd)
  qed
qed

lemma merge_distinct_keys:
  "distinct (map (\<lambda>x. (timestamp x, content x)) prev) \<Longrightarrow>
   distinct (map (\<lambda>x. (timestamp x, content x)) (fst (foldl pushEntry (prev, u) batch)))"
proof (induction batch rule: rev_induct)
  case Nil
  then show ?case by simp
next
  case (snoc b bs)
  then show ?case
    by (simp add: pushEntry_fst isDuplicate_key)
qed

lemma merge_fresh:
  "distinct (map (\<lambda>x. (timestamp x, content x)) batch) \<Longrightarrow>
   (\<lambda>x. (timestamp x, content x)) ` set prev \<inter> (\<lambda>x. (timestamp x, content x)) ` set batch = {} \<Longrightarrow>
   foldl pushEntry (prev, u) batch = (prev @ batch, u \<or> batch \<noteq> [])"
proof (induction batch rule: rev_induct)
  case Nil
  show ?case by simp
next
  case (snoc b bs)
  then have IH: "foldl pushEntry (prev, u) bs = (prev @ bs, u \<or> bs \<noteq> [])"
    by auto
  have "\<not> isDuplicate (prev @ bs) b"
    using snoc.prems by (auto simp: isDuplicate_key)
  then show ?case
    by (simp add: IH pushEntry_apply)
qed

lemma length_slice_last: "length (slice_last n xs) \<le> n"
  by (simp add: slice_last_def)

lemma slice_last_short: "length xs \<le> n \<Longrightarrow> slice_last n xs = xs"
  by (simp add: slice_last_def)

lemma last_slice_last: "xs \<noteq> [] \<Longrightarrow> 0 < n \<Longrightarrow> last (slice_last n xs) = last xs"
  by (cases xs) (auto simp: slice_last_def)

lemma slice_last_nonempty: "xs \<noteq> [] \<Longrightarrow> 0 < n \<Longrightarrow> slice_last n xs \<noteq> []"
  by (cases xs) (auto simp: slice_last_def)

lemma merge_not_updated:
  "\<not> snd (foldl pushEntry (prev, False) batch) \<Longrightarrow> fst (foldl pushEntry (prev, False) batch) = prev"
  using merge_extends [of prev False batch] by auto

lemma merge_updated_iff:
  "snd (foldl pushEntry (prev, False) batch) \<longleftrightarrow> \<not> list_all (isDuplicate prev) batch"
proof
  assume "snd (foldl pushEntry (prev, False) batch)"
  then show "\<not> list_all (isDuplicate prev) batch"
    using merge_all_duplicates [of prev batch False] by auto
next
  assume "\<not> list_all (isDuplicate prev) batch"
  then show "snd (foldl pushEntry (prev, False) batch)"
  proof (induction batch rule: rev_induct)
    case Nil
    then show ?case by simp
  next
    case (snoc b bs)
    show ?case
    proof (cases "snd (foldl pushEntry (prev, False) bs)")
      case True
      then show ?thesis by (simp add: pushEntry_snd)
    next
      case False
      then have "list_all (isDuplicate prev) bs" using snoc.IH by blast
      with snoc.prems have "\<not> isDuplicate prev b" by simp
      moreover have "fst (foldl pushEntry (prev, False) bs) = prev"
        using False by (rule merge_not_updated)
      ultimately show ?thesis by (simp add: pushEntry_snd)
    qed
  qed
qed

lemma onmessage_logs:
  "isComponentMounted s \<Longrightarrow>
   logs (onmessage (Payload (Some batch)) s) =
     (if snd (foldl pushEntry (logs s, False) batch)
      then slice_last 1000 (fst (foldl pushEntry (logs s, False) batch)) else logs s)"
  by (cases batch) (simp_all add: onmessage_def Let_def split: prod.splits)

lemma onmessage_cursor:
  "isComponentMounted s \<Longrightarrow>
   lastTimestamp (onmessage (Payload (Some batch)) s) =
     (if snd (foldl pushEntry (logs s, False) batch)
      then Some (timestamp (last (slice_last 1000 (fst (foldl pushEntry (logs s, False) batch)))))
      else lastTimestamp s)"
  by (cases batch) (simp_all add: onmessage_def Let_def split: prod.splits)

text \<open>
  Claim C3. While a batch is merged, a candidate \<open>e\<close> is appended to the working copy
  exactly when no entry stored there has its timestamp and its content; the entries
  stored at that moment carry the timestamp-content pairs of the store before the batch
  and of the candidates before \<open>e\<close>. As long as the result fits the capacity, it becomes
  the store as it is. A batch all of whose entries are already stored leaves the whole
  state as it was. Receiving \<open>[a@1]\<close> and then \<open>[a@1, b@2]\<close> from the empty store gives
  \<open>[a@1, b@2]\<close>.
\<close>

theorem merge_appends_new_entries_only:
  "fst (foldl pushEntry (prev, u) (pre @ [e])) =
     (if \<exists>x \<in> set (fst (foldl pushEntry (prev, u) pre)).
           timestamp x = timestamp e \<and> content x = content e
      then fst (foldl pushEntry (prev, u) pre)
      else fst (foldl pushEntry (prev, u) pre) @ [e])
   \<and> ((\<exists>x \<in> set (fst (foldl pushEntry (prev, u) pre)).
           timestamp x = timestamp e \<and> content x = content e) \<longleftrightarrow>
        (\<exists>x \<in> set prev \<union> set pre. timestamp x = timestamp e \<and> content x = content e))
   \<and> (isComponentMounted s \<and> length (fst (foldl pushEntry (logs s, False) batch)) \<le> 1000 \<longrightarrow>
        logs (onmessage (Payload (Some batch)) s) = fst (foldl pushEntry (logs s, False) batch))
   \<and> ((\<forall>b \<in> set batch. \<exists>x \<in> set (logs s). timestamp x = timestamp b \<and> content x = content b) \<longrightarrow>
        onmessage (Payload (Some batch)) s = s)
   \<and> logs (foldl step init_console
        [Message (Payload (Some [entryA])), Message (Payload (Some [entryA, entryB]))]) =
        [entryA, entryB]"
proof (intro conjI impI)
  show "fst (foldl pushEntry (prev, u) (pre @ [e])) =
     (if \<exists>x \<in> set (fst (foldl pushEntry (prev, u) pre)).
           timestamp x = timestamp e \<and> content x = content e
      then fst (foldl pushEntry (prev, u) pre)
      else fst (foldl pushEntry (prev, u) pre) @ [e])"
    by (simp only: foldl_append foldl.simps pushEntry_fst isDuplicate_iff)
next
  show "(\<exists>x \<in> set (fst (foldl pushEntry (prev, u) pre)).
           timestamp x = timestamp e \<and> content x = content e) \<longleftrightarrow>
        (\<exists>x \<in> set prev \<union> set pre. timestamp x = timestamp e \<and> content x = content e)"
    using merge_isDuplicate [of prev u pre e] by (simp only: isDuplicate_iff)
next
  assume a: "isComponentMounted s \<and> length (fst (foldl pushEntry (logs s, False) batch)) \<le> 1000"
  show "logs (onmessage (Payload (Some batch)) s) = fst (foldl pushEntry (logs s, False) batch)"
  proof (cases "snd (foldl pushEntry (logs s, False) batch)")
    case True
    with a show ?thesis by (simp add: onmessage_logs slice_last_short)
  next
    case False
    with a show ?thesis by (simp add: onmessage_logs merge_not_updated)
  qed
next
  assume "\<forall>b \<in> set batch. \<exists>x \<in> set (logs s). timestamp x = timestamp b \<and> content x = content b"
  then have "list_all (isDuplicate (logs s)) batch"
    by (simp add: list_all_iff isDuplicate_iff)
  then have "foldl pushEntry (logs s, False) batch = (logs s, False)"
    by (rule merge_all_duplicates)
  then show "onmessage (Payload (Some batch)) s = s"
    by (simp add: onmessage_def)
next
  show "logs (foldl step init_console
        [Message (Payload (Some [entryA])), Message (Payload (Some [entryA, entryB]))]) =
        [entryA, entryB]"
    by (simp add: init_console_def onmessage_def pushEntry_apply isDuplicate_def slice_last_def
        entryA_def entryB_def)
qed

text \<open>
  On \<open>a@1\<close> and \<open>b@2\<close>: a new entry is appended after \<open>a@1\<close>, a repeated one is not, and a
  replayed batch changes nothing.
\<close>

theorem merge_appends_new_entries_only_witness:
  "fst (foldl pushEntry ([entryA], False) ([entryA] @ [entryB])) = [entryA, entryB] \<and>
   fst (foldl pushEntry ([entryA], False) ([entryB] @ [entryA])) = [entryA, entryB] \<and>
   logs (onmessage (Payload (Some [entryA, entryB])) (init_console\<lparr>logs := [entryA]\<rparr>)) =
     [entryA, entryB] \<and>
   onmessage (Payload (Some [entryB, entryA])) (init_console\<lparr>logs := [entryA, entryB]\<rparr>) =
     init_console\<lparr>logs := [entryA, entryB]\<rparr>"
proof -
  note new = merge_appends_new_entries_only
    [of "[entryA]" False "[entryA]" entryB "init_console\<lparr>logs := [entryA]\<rparr>" "[entryA, entryB]"]
  note old = merge_appends_new_entries_only
    [of "[entryA]" False "[entryB]" entryA "init_console\<lparr>logs := [entryA, entryB]\<rparr>"
        "[entryB, entryA]"]
  have small: "isComponentMounted (init_console\<lparr>logs := [entryA]\<rparr>) \<and>
      length (fst (foldl pushEntry (logs (init_console\<lparr>logs := [entryA]\<rparr>), False)
        [entryA, entryB])) \<le> 1000"
    by (simp add: init_console_def pushEntry_apply isDuplicate_def entryA_def entryB_def)
  have stored: "\<forall>b \<in> set [entryB, entryA].
      \<exists>x \<in> set (logs (init_console\<lparr>logs := [entryA, entryB]\<rparr>)).
        timestamp x = timestamp b \<and> content x = content b"
    by simp
  have 1: "fst (foldl pushEntry ([entryA], False) ([entryA] @ [entryB])) = [entryA, entryB]"
    using new [THEN conjunct1]
    by (simp add: pushEntry_apply isDuplicate_def entryA_def entryB_def)
  have 2: "fst (foldl pushEntry ([entryA], False) ([entryB] @ [entryA])) = [entryA, entryB]"
    using old [THEN conjunct1]
    by (simp add: pushEntry_apply isDuplicate_def entryA_def entryB_def)
  have "logs (onmessage (Payload (Some [entryA, entryB])) (init_console\<lparr>logs := [entryA]\<rparr>)) =
      fst (foldl pushEntry (logs (init_console\<lparr>logs := [entryA]\<rparr>), False) [entryA, entryB])"
    by (rule mp [OF new [THEN conjunct2, THEN conjunct2, THEN conjunct1] small])
  then have 3: "logs (onmessage (Payload (Some [entryA, entryB])) (init_console\<lparr>logs := [entryA]\<rparr>)) =
     [entryA, entryB]"
    by (simp add: pushEntry_apply isDuplicate_def entryA_def entryB_def)
  have 4: "onmessage (Payload (Some [entryB, entryA])) (init_console\<lparr>logs := [entryA, entryB]\<rparr>) =
     init_console\<lparr>logs := [entryA, entryB]\<rparr>"
    by (rule mp [OF old [THEN conjunct2, THEN conjunct2, THEN conjunct2, THEN conjunct1] stored])
  from 1 2 3 4 show ?thesis by blast
qed

lemma distinct_thousand_lines:
  "distinct (map (\<lambda>x. (timestamp x, content x)) thousand_lines)"
proof -
  have "inj_on (\<lambda>n. (''2025-01-01T00:00:00.000Z'', replicate (Suc n) (CHR ''x''))) (set [0..<1000])"
  proof (rule inj_onI)
    fix n m :: nat
    assume "(''2025-01-01T00:00:00.000Z'', replicate (Suc n) (CHR ''x'')) =
            (''2025-01-01T00:00:00.000Z'', replicate (Suc m) (CHR ''x''))"
    then have "length (replicate (Suc n) (CHR ''x'')) = length (replicate (Suc m) (CHR ''x''))"
      by simp
    then show "n = m" by simp
  qed
  then show ?thesis
    by (simp add: thousand_lines_def numbered_line_def distinct_map comp_def)
qed

lemma merge_thousand_lines:
  "foldl pushEntry ([], False) thousand_lines = (thousand_lines, True)"
proof -
  have "thousand_lines \<noteq> []" by (simp add: thousand_lines_def)
  then show ?thesis
    using merge_fresh [OF distinct_thousand_lines, of "[]" False] by simp
qed

lemma length_thousand_lines: "length thousand_lines = 1000"
  by (simp add: thousand_lines_def)

lemma length_console_handleServerAction:
  "length (logs (console_handleServerAction now1 now2 res act s)) = length (logs s) + 2"
  by (simp add: console_handleServerAction_def appendLog_def Let_def split: control_result.split)

text \<open>
  Claim C4, on a run from the initial state. A message with a thousand different lines
  fills the store to 1000 entries. One control action of the console page then appends
  its command line and its result line with plain \<^verbatim>\<open>[...prev, entry]\<close> updates: the
  store holds 1002 entries, whatever the clock readings, the action and the outcome of
  the request are. Only the merge of a stream batch trims to the last 1000.
\<close>

theorem server_action_exceeds_capacity:
  "length (logs (foldl step init_console [Message (Payload (Some thousand_lines))])) = 1000 \<and>
   length (logs (foldl step init_console
      [Message (Payload (Some thousand_lines)), ServerAction now1 now2 res act])) = 1002"
proof -
  have full: "logs (onmessage (Payload (Some thousand_lines)) init_console) = thousand_lines"
    by (simp add: onmessage_logs init_console_def merge_thousand_lines slice_last_short
        length_thousand_lines)
  then show ?thesis
    by (simp add: length_console_handleServerAction length_thousand_lines)
qed


section \<open>The subscription: teardown and reconnect\<close>

lemma fetchInitialLogs_unmounted:
  "\<not> isComponentMounted s \<Longrightarrow> fetchInitialLogs res s = s"
  by (simp add: fetchInitialLogs_def split: initial_result.split option.split)

lemma connectEventSource_unmounted:
  "\<not> isComponentMounted s \<Longrightarrow> connectEventSource throws s = s"
  by (simp add: connectEventSource_def)

lemma onmessage_unmounted:
  "\<not> isComponentMounted s \<Longrightarrow> onmessage m s = s"
  by (simp add: onmessage_def)

lemma onerror_unmounted:
  "\<not> isComponentMounted s \<Longrightarrow> onerror s = s"
  by (simp add: onerror_def)

lemma appendLog_frame:
  "isComponentMounted (appendLog e s) = isComponentMounted s"
  "opened (appendLog e s) = opened s"
  "eventSource (appendLog e s) = eventSource s"
  "lastTimestamp (appendLog e s) = lastTimestamp s"
  "timers (appendLog e s) = timers s"
  by (simp_all add: appendLog_def)

lemma console_handleServerAction_frame:
  "isComponentMounted (console_handleServerAction now1 now2 res act s) = isComponentMounted s"
  "opened (console_handleServerAction now1 now2 res act s) = opened s"
  "eventSource (console_handleServerAction now1 now2 res act s) = eventSource s"
  "lastTimestamp (console_handleServerAction now1 now2 res act s) = lastTimestamp s"
  "timers (console_handleServerAction now1 now2 res act s) = timers s"
  by (simp_all add: console_handleServerAction_def Let_def appendLog_frame
      split: control_result.split)

lemma closeSource_idem: "closeSource (closeSource es) = closeSource es"
  by (cases es) (simp_all add: closeSource_def)

lemma step_unmounted:
  assumes "\<not> isComponentMounted s" and "closeSource (eventSource s) = eventSource s"
  shows "\<not> isComponentMounted (step s ev) \<and> opened (step s ev) = opened s \<and>
     eventSource (step s ev) = eventSource s"
proof (cases ev)
  case (InitialLogs res throws)
  with assms show ?thesis by (simp add: fetchInitialLogs_unmounted)
next
  case (Message m)
  with assms show ?thesis by (simp add: onmessage_unmounted)
next
  case StreamError
  with assms show ?thesis by (simp add: onerror_unmounted)
next
  case (TimerFires throws)
  with assms show ?thesis
    by (cases "timers s") (simp_all add: connectEventSource_unmounted)
next
  case Cleanup
  with assms show ?thesis by (simp add: cleanup_def)
next
  case (ServerAction now1 now2 res act)
  with assms show ?thesis by (simp add: console_handleServerAction_frame)
next
  case Clear
  with assms show ?thesis by simp
qed

lemma run_unmounted:
  "\<not> isComponentMounted s \<Longrightarrow> closeSource (eventSource s) = eventSource s \<Longrightarrow>
     \<not> isComponentMounted (foldl step s evs) \<and> opened (foldl step s evs) = opened s \<and>
     eventSource (foldl step s evs) = eventSource s"
proof (induction evs arbitrary: s)
  case Nil
  then show ?case by simp
next
  case (Cons ev evs)
  from Cons.prems have st: "\<not> isComponentMounted (step s ev) \<and> opened (step s ev) = opened s \<and>
     eventSource (step s ev) = eventSource s" by (rule step_unmounted)
  with Cons.prems have "\<not> isComponentMounted (step s ev)"
    and "closeSource (eventSource (step s ev)) = eventSource (step s ev)" by simp_all
  from Cons.IH [OF this] st show ?case by simp
qed

text \<open>
  Claim C6. Once the cleanup of the subscribe effect has run, whatever happens
  afterwards and in whatever order (a pending reconnect timer firing, the backlog
  request settling, messages, errors, actions of the page), no \<^verbatim>\<open>EventSource\<close> is
  created: the list of opened channels is the one from before the cleanup, the channel
  variable holds the closed channel, the subscription stays unmounted and a call of
  \<^verbatim>\<open>connectEventSource\<close> returns without effect. The state before the cleanup is
  arbitrary, so every interleaving of the timer and the teardown is covered.
\<close>

theorem no_reconnect_after_teardown:
  "opened (foldl step s (Cleanup # evs)) = opened s \<and>
   eventSource (foldl step s (Cleanup # evs)) = closeSource (eventSource s) \<and>
   \<not> isComponentMounted (foldl step s (Cleanup # evs)) \<and>
   connectEventSource throws (foldl step s (Cleanup # evs)) = foldl step s (Cleanup # evs)"
proof -
  have "\<not> isComponentMounted (cleanup s)"
    and "closeSource (eventSource (cleanup s)) = eventSource (cleanup s)"
    by (simp_all add: cleanup_def closeSource_idem)
  from run_unmounted [OF this, of evs] show ?thesis
    by (simp add: cleanup_def connectEventSource_def)
qed

text \<open>
  A reconnect scheduled just before the teardown: the stream fails (a timer of 5000 ms
  is pending), the cleanup runs, the timer fires; still only the first channel was ever
  opened.
\<close>

theorem no_reconnect_after_teardown_witness:
  "timers (foldl step init_console [InitialLogs InitialFails False, StreamError]) = [5000] \<and>
   opened (foldl step init_console [InitialLogs InitialFails False, StreamError]) = [None] \<and>
   opened (foldl step init_console
     [InitialLogs InitialFails False, StreamError, Cleanup, TimerFires False]) = [None] \<and>
   eventSource (foldl step init_console
     [InitialLogs InitialFails False, StreamError, Cleanup, TimerFires False]) =
     Some \<lparr>since = None, isClosed = True\<rparr>"
proof -
  have before: "foldl step init_console [InitialLogs InitialFails False, StreamError] =
      \<lparr>logs = [], isComponentMounted = True, lastTimestamp = None,
       eventSource = Some \<lparr>since = None, isClosed = True\<rparr>, opened = [None], timers = [5000]\<rparr>"
    by (simp add: init_console_def fetchInitialLogs_def connectEventSource_def onerror_def
        closeSource_def sinceParam_def)
  from no_reconnect_after_teardown
    [of "foldl step init_console [InitialLogs InitialFails False, StreamError]" "[TimerFires False]" False]
  have "opened (foldl step (foldl step init_console [InitialLogs InitialFails False, StreamError])
            [Cleanup, TimerFires False]) = [None] \<and>
        eventSource (foldl step (foldl step init_console [InitialLogs InitialFails False, StreamError])
            [Cleanup, TimerFires False]) = Some \<lparr>since = None, isClosed = True\<rparr>"
    by (simp only: before) (simp add: closeSource_def)
  then have "opened (foldl step init_console
     ([InitialLogs InitialFails False, StreamError] @ [Cleanup, TimerFires False])) = [None] \<and>
   eventSource (foldl step init_console
     ([InitialLogs InitialFails False, StreamError] @ [Cleanup, TimerFires False])) =
     Some \<lparr>since = None, isClosed = True\<rparr>"
    by (simp only: foldl_append)
  with before show ?thesis by simp
qed

lemma onerror_mounted:
  "isComponentMounted s \<Longrightarrow> eventSource s = Some c \<Longrightarrow>
   onerror s = s\<lparr>eventSource := Some (c\<lparr>isClosed := True\<rparr>), timers := timers s @ [5000]\<rparr>"
  by (simp add: onerror_def)

lemma connect_after_error:
  assumes "isComponentMounted s" and "eventSource s = Some c"
  shows "step (onerror s) (TimerFires False) =
     s\<lparr>eventSource := Some \<lparr>since = sinceParam (lastTimestamp s), isClosed = False\<rparr>,
       opened := opened s @ [sinceParam (lastTimestamp s)],
       timers := tl (timers s @ [5000])\<rparr>"
proof (cases "timers s")
  case Nil
  with assms show ?thesis
    by (simp add: onerror_mounted connectEventSource_def closeSource_def)
next
  case (Cons d ds)
  with assms show ?thesis
    by (simp add: onerror_mounted connectEventSource_def closeSource_def)
qed

lemma merged_last:
  assumes "snd (foldl pushEntry (prev, False) batch)"
  shows "fst (foldl pushEntry (prev, False) batch) \<noteq> []"
    and "last (fst (foldl pushEntry (prev, False) batch)) \<in> set batch"
proof -
  obtain news where n: "fst (foldl pushEntry (prev, False) batch) = prev @ news"
    "set news \<subseteq> set batch" "snd (foldl pushEntry (prev, False) batch) = (False \<or> news \<noteq> [])"
    using merge_extends [of prev False batch] by blast
  with assms have ne: "news \<noteq> []" by simp
  with n show "fst (foldl pushEntry (prev, False) batch) \<noteq> []" by simp
  from ne have "last (prev @ news) = last news" by simp
  moreover from ne have "last news \<in> set news" by simp
  ultimately show "last (fst (foldl pushEntry (prev, False) batch)) \<in> set batch"
    using n by auto
qed

text \<open>
  The updater reads \<^verbatim>\<open>trimmedLogs[trimmedLogs.length - 1]\<close> only after an entry was
  pushed, so the read is in range and \<open>last\<close> is the element the code reads.
\<close>

lemma trimmedLogs_nonempty:
  "snd (foldl pushEntry (prev, False) batch) \<Longrightarrow>
   slice_last 1000 (fst (foldl pushEntry (prev, False) batch)) \<noteq> []"
  by (simp add: slice_last_nonempty merged_last)

lemma onmessage_advances_cursor:
  assumes "isComponentMounted s"
    and "\<exists>b \<in> set batch. \<not> (\<exists>x \<in> set (logs s). timestamp x = timestamp b \<and> content x = content b)"
  shows "lastTimestamp (onmessage (Payload (Some batch)) s) =
           Some (timestamp (last (logs (onmessage (Payload (Some batch)) s))))"
    and "last (logs (onmessage (Payload (Some batch)) s)) \<in> set batch"
proof -
  from assms(2) have "\<not> list_all (isDuplicate (logs s)) batch"
    by (simp add: list_all_iff isDuplicate_iff)
  then have upd: "snd (foldl pushEntry (logs s, False) batch)"
    by (simp add: merge_updated_iff)
  with assms(1) show "lastTimestamp (onmessage (Payload (Some batch)) s) =
           Some (timestamp (last (logs (onmessage (Payload (Some batch)) s))))"
    by (simp add: onmessage_cursor onmessage_logs)
  from upd assms(1) show "last (logs (onmessage (Payload (Some batch)) s)) \<in> set batch"
    by (simp add: onmessage_logs last_slice_last merged_last)
qed

lemma step_keeps_cursor:
  assumes "\<forall>m. ev \<noteq> Message m" and "\<forall>res throws. ev \<noteq> InitialLogs res throws"
  shows "lastTimestamp (step s ev) = lastTimestamp s"
proof (cases ev)
  case (InitialLogs res throws)
  with assms(2) show ?thesis by blast
next
  case (Message m)
  with assms(1) show ?thesis by blast
next
  case StreamError
  then show ?thesis by (simp add: onerror_def split: option.split)
next
  case (TimerFires throws)
  then show ?thesis
    by (cases "timers s") (simp_all add: connectEventSource_def Let_def)
next
  case Cleanup
  then show ?thesis by (simp add: cleanup_def)
next
  case (ServerAction now1 now2 res act)
  then show ?thesis by (simp add: console_handleServerAction_frame)
next
  case Clear
  then show ?thesis by simp
qed

lemma distinct_slice_last: "distinct (map f xs) \<Longrightarrow> distinct (map f (slice_last n xs))"
  by (simp add: slice_last_def drop_map [symmetric])

lemma onmessage_distinct:
  assumes "distinct (map (\<lambda>x. (timestamp x, content x)) (logs s))"
  shows "distinct (map (\<lambda>x. (timestamp x, content x)) (logs (onmessage m s)))"
proof (cases "isComponentMounted s")
  case False
  with assms show ?thesis by (simp add: onmessage_unmounted)
next
  case True
  show ?thesis
  proof (cases m)
    case Unparsable
    with assms show ?thesis by (simp add: onmessage_def)
  next
    case (Payload lg)
    show ?thesis
    proof (cases lg)
      case None
      with Payload assms show ?thesis by (simp add: onmessage_def)
    next
      case (Some batch)
      from assms have "distinct (map (\<lambda>x. (timestamp x, content x))
          (fst (foldl pushEntry (logs s, False) batch)))"
        by (rule merge_distinct_keys)
      then have "distinct (map (\<lambda>x. (timestamp x, content x))
          (slice_last 1000 (fst (foldl pushEntry (logs s, False) batch))))"
        by (rule distinct_slice_last)
      with Payload Some True assms show ?thesis
        by (simp add: onmessage_logs)
    qed
  qed
qed

text \<open>
  Claim C5. In a mounted subscription with a channel \<open>c\<close>, a stream error closes \<open>c\<close>
  and schedules one \<^verbatim>\<open>connectEventSource\<close> after 5000 ms; when the timer fires, a new
  open channel is created whose \<^verbatim>\<open>since\<close> parameter is the cursor \<^verbatim>\<open>lastTimestamp\<close> (any
  non-empty cursor is passed as it is), and the store and the mounted flag are as
  before. The cursor is the timestamp of the last merged entry: a message that appends
  something sets it to the timestamp of the last entry of the store, which is an entry
  of that batch, and no event other than a message or the backlog answer changes it.
  Messages after the reconnect are merged into the same store, and a store without
  repeated timestamp-content pairs stays so.
\<close>

theorem stream_error_reconnects_from_cursor:
  "(isComponentMounted s \<and> eventSource s = Some c \<longrightarrow>
      step s StreamError =
        s\<lparr>eventSource := Some (c\<lparr>isClosed := True\<rparr>), timers := timers s @ [5000]\<rparr> \<and>
      eventSource (foldl step s [StreamError, TimerFires False]) =
        Some \<lparr>since = sinceParam (lastTimestamp s), isClosed = False\<rparr> \<and>
      opened (foldl step s [StreamError, TimerFires False]) =
        opened s @ [sinceParam (lastTimestamp s)] \<and>
      logs (foldl step s [StreamError, TimerFires False]) = logs s \<and>
      isComponentMounted (foldl step s [StreamError, TimerFires False]))
   \<and> (t \<noteq> [] \<longrightarrow> sinceParam (Some t) = Some t)
   \<and> (isComponentMounted s \<and>
       (\<exists>b \<in> set batch. \<not> (\<exists>x \<in> set (logs s). timestamp x = timestamp b \<and> content x = content b)) \<longrightarrow>
        lastTimestamp (step s (Message (Payload (Some batch)))) =
          Some (timestamp (last (logs (step s (Message (Payload (Some batch))))))) \<and>
        last (logs (step s (Message (Payload (Some batch))))) \<in> set batch)
   \<and> ((\<forall>m. ev \<noteq> Message m) \<and> (\<forall>res throws. ev \<noteq> InitialLogs res throws) \<longrightarrow>
        lastTimestamp (step s ev) = lastTimestamp s)
   \<and> (distinct (map (\<lambda>x. (timestamp x, content x)) (logs s)) \<longrightarrow>
        distinct (map (\<lambda>x. (timestamp x, content x)) (logs (step s (Message m)))))"
proof (intro conjI impI)
  assume a: "isComponentMounted s \<and> eventSource s = Some c"
  then have m: "isComponentMounted s" and e: "eventSource s = Some c" by simp_all
  show "step s StreamError =
        s\<lparr>eventSource := Some (c\<lparr>isClosed := True\<rparr>), timers := timers s @ [5000]\<rparr>"
    using m e by (simp add: onerror_mounted)
  have run: "foldl step s [StreamError, TimerFires False] = step (onerror s) (TimerFires False)"
    by simp
  show "eventSource (foldl step s [StreamError, TimerFires False]) =
        Some \<lparr>since = sinceParam (lastTimestamp s), isClosed = False\<rparr>"
    by (simp only: run connect_after_error [OF m e]) simp
  show "opened (foldl step s [StreamError, TimerFires False]) =
        opened s @ [sinceParam (lastTimestamp s)]"
    by (simp only: run connect_after_error [OF m e]) simp
  show "logs (foldl step s [StreamError, TimerFires False]) = logs s"
    by (simp only: run connect_after_error [OF m e]) simp
  show "isComponentMounted (foldl step s [StreamError, TimerFires False])"
    using m by (simp only: run connect_after_error [OF m e]) simp
next
  assume "t \<noteq> []"
  then show "sinceParam (Some t) = Some t" by (simp add: sinceParam_def)
next
  assume b: "isComponentMounted s \<and>
       (\<exists>b \<in> set batch. \<not> (\<exists>x \<in> set (logs s). timestamp x = timestamp b \<and> content x = content b))"
  then show "lastTimestamp (step s (Message (Payload (Some batch)))) =
          Some (timestamp (last (logs (step s (Message (Payload (Some batch)))))))"
    using onmessage_advances_cursor(1) [of s batch] by simp
  from b show "last (logs (step s (Message (Payload (Some batch))))) \<in> set batch"
    using onmessage_advances_cursor(2) [of s batch] by simp
next
  assume "(\<forall>m. ev \<noteq> Message m) \<and> (\<forall>res throws. ev \<noteq> InitialLogs res throws)"
  then show "lastTimestamp (step s ev) = lastTimestamp s"
    using step_keeps_cursor [of ev s] by blast
next
  assume "distinct (map (\<lambda>x. (timestamp x, content x)) (logs s))"
  then show "distinct (map (\<lambda>x. (timestamp x, content x)) (logs (step s (Message m))))"
    using onmessage_distinct [of s m] by simp
qed

lemma entry_simps:
  "timestamp entryA = ''1''" "content entryA = ''a''"
  "timestamp entryB = ''2''" "content entryB = ''b''"
  "timestamp entryC = ''3''" "content entryC = ''c''"
  "timestamp entryD = ''4''" "content entryD = ''d''"
  by (simp_all add: entryA_def entryB_def entryC_def entryD_def)

text \<open>
  Three messages, then the feed fails: the channel is closed and a timer of 5000 ms is
  set; the reconnect asks for \<open>since = 3\<close>; the replayed \<open>c@3\<close> is dropped and \<open>d@4\<close>
  continues the same store.
\<close>

theorem stream_error_reconnects_from_cursor_witness:
  "foldl step init_console
     [InitialLogs InitialFails False, Message (Payload (Some [entryA])),
      Message (Payload (Some [entryB])), Message (Payload (Some [entryC]))] = consoleC \<and>
   step consoleC StreamError =
     consoleC\<lparr>eventSource := Some \<lparr>since = None, isClosed = True\<rparr>, timers := [5000]\<rparr> \<and>
   eventSource (foldl step consoleC [StreamError, TimerFires False]) =
     Some \<lparr>since = Some ''3'', isClosed = False\<rparr> \<and>
   opened (foldl step consoleC [StreamError, TimerFires False]) = [None, Some ''3''] \<and>
   logs (foldl step consoleC [StreamError, TimerFires False]) = [entryA, entryB, entryC] \<and>
   logs (foldl step consoleC
     [StreamError, TimerFires False, Message (Payload (Some [entryC, entryD]))]) =
     [entryA, entryB, entryC, entryD] \<and>
   lastTimestamp (foldl step consoleC
     [StreamError, TimerFires False, Message (Payload (Some [entryC, entryD]))]) = Some ''4'' \<and>
   distinct (map (\<lambda>x. (timestamp x, content x)) (logs (foldl step consoleC
     [StreamError, TimerFires False, Message (Payload (Some [entryC, entryD]))])))"
proof -
  let ?c = "\<lparr>since = None, isClosed = False\<rparr>"
  let ?again = "foldl step consoleC [StreamError, TimerFires False]"
  let ?msg = "Payload (Some [entryC, entryD])"
  note at_error = stream_error_reconnects_from_cursor
    [of consoleC ?c "''3''" "[entryC, entryD]" StreamError ?msg]
  note at_message = stream_error_reconnects_from_cursor
    [of ?again ?c "''3''" "[entryC, entryD]" StreamError ?msg]
  have reach: "foldl step init_console
     [InitialLogs InitialFails False, Message (Payload (Some [entryA])),
      Message (Payload (Some [entryB])), Message (Payload (Some [entryC]))] = consoleC"
    by (simp add: init_console_def consoleC_def fetchInitialLogs_def connectEventSource_def
        closeSource_def sinceParam_def onmessage_def pushEntry_apply isDuplicate_def
        slice_last_def entry_simps)
  have live: "isComponentMounted consoleC \<and> eventSource consoleC = Some ?c"
    by (simp add: consoleC_def)
  have reconnect: "step consoleC StreamError =
        consoleC\<lparr>eventSource := Some (?c\<lparr>isClosed := True\<rparr>), timers := timers consoleC @ [5000]\<rparr> \<and>
      eventSource ?again = Some \<lparr>since = sinceParam (lastTimestamp consoleC), isClosed = False\<rparr> \<and>
      opened ?again = opened consoleC @ [sinceParam (lastTimestamp consoleC)] \<and>
      logs ?again = logs consoleC \<and> isComponentMounted ?again"
    by (rule mp [OF at_error [THEN conjunct1] live])
  have cursor: "sinceParam (Some ''3'') = Some ''3''"
    by (rule mp [OF at_error [THEN conjunct2, THEN conjunct1]]) simp
  have kept: "lastTimestamp (step consoleC StreamError) = lastTimestamp consoleC"
    by (rule mp [OF at_error [THEN conjunct2, THEN conjunct2, THEN conjunct2, THEN conjunct1]]) simp
  have fieldsC: "logs consoleC = [entryA, entryB, entryC]" "lastTimestamp consoleC = Some ''3''"
    "opened consoleC = [None]" "timers consoleC = []"
    by (simp_all add: consoleC_def)
  from reconnect have "logs ?again = logs consoleC" by blast
  then have again_logs: "logs ?again = [entryA, entryB, entryC]"
    by (simp only: fieldsC)
  from reconnect have again_mounted: "isComponentMounted ?again" by blast
  have fresh: "isComponentMounted ?again \<and>
       (\<exists>b \<in> set [entryC, entryD].
          \<not> (\<exists>x \<in> set (logs ?again). timestamp x = timestamp b \<and> content x = content b))"
    using again_mounted by (simp only: again_logs) (simp add: entry_simps)
  have advanced: "lastTimestamp (step ?again (Message ?msg)) =
          Some (timestamp (last (logs (step ?again (Message ?msg))))) \<and>
        last (logs (step ?again (Message ?msg))) \<in> set [entryC, entryD]"
    by (rule mp [OF at_message [THEN conjunct2, THEN conjunct2, THEN conjunct1] fresh])
  have clean: "distinct (map (\<lambda>x. (timestamp x, content x)) (logs ?again))"
    by (simp only: again_logs) (simp add: entry_simps)
  have no_dup: "distinct (map (\<lambda>x. (timestamp x, content x)) (logs (step ?again (Message ?msg))))"
    by (rule mp [OF at_message [THEN conjunct2, THEN conjunct2, THEN conjunct2, THEN conjunct2] clean])
  have merged: "logs (step ?again (Message ?msg)) = [entryA, entryB, entryC, entryD]"
    using again_mounted
    by (simp only: step.simps onmessage_logs again_logs)
       (simp add: pushEntry_apply isDuplicate_def slice_last_def entry_simps)
  have run: "foldl step consoleC [StreamError, TimerFires False, Message ?msg] =
      step ?again (Message ?msg)"
    by simp
  from reconnect have r1: "step consoleC StreamError =
     consoleC\<lparr>eventSource := Some \<lparr>since = None, isClosed = True\<rparr>, timers := [5000]\<rparr>"
    by (simp only: fieldsC) simp
  from reconnect have "eventSource ?again =
      Some \<lparr>since = sinceParam (lastTimestamp consoleC), isClosed = False\<rparr>" by blast
  then have r2: "eventSource ?again = Some \<lparr>since = Some ''3'', isClosed = False\<rparr>"
    by (simp only: fieldsC cursor)
  from reconnect have "opened ?again = opened consoleC @ [sinceParam (lastTimestamp consoleC)]"
    by blast
  then have r3: "opened ?again = [None, Some ''3'']"
    by (simp only: fieldsC cursor) simp
  from advanced have r4: "lastTimestamp (step ?again (Message ?msg)) = Some ''4''"
    by (simp only: merged) (simp add: entry_simps)
  from reach r1 r2 r3 again_logs merged r4 no_dup show ?thesis
    by (simp only: run)
qed


section \<open>The event relay\<close>















section \<open>The upgrade proxy\<close>

lemma GET_ws_rejects:
  assumes "\<not> (\<exists>h. upgrade req = Some h \<and> toLowerCase h = ''websocket'')"
  shows "GET_ws up serverId req = (text_response 426 ''Expected Upgrade: websocket'', [])"
proof (cases "upgrade req")
  case None
  then show ?thesis by (simp add: GET_ws_def)
next
  case (Some h)
  with assms have "toLowerCase h \<noteq> ''websocket''" by simp
  with Some show ?thesis by (simp add: GET_ws_def)
qed

lemma toLowerCase_Nil: "toLowerCase [] = []"
  by (simp add: toLowerCase_def)

lemma GET_ws_upgrade:
  assumes "upgrade req = Some h" and "toLowerCase h = ''websocket''"
  shows "GET_ws up serverId req =
     (case up (handshake_call serverId req) of
        WsThrows \<Rightarrow>
          (text_response 500 ''Failed to connect to WebSocket server'',
           [handshake_call serverId req])
      | WsResponse st hs \<Rightarrow>
          if st \<noteq> 101 then
            (text_response 502 ''Failed to upgrade connection'', [handshake_call serverId req])
          else
            (text_response 500 ''Failed to connect to WebSocket server'',
             [handshake_call serverId req]))"
proof -
  from assms(2) have "h \<noteq> []" by (auto simp: toLowerCase_Nil)
  with assms show ?thesis
    by (simp add: GET_ws_def Let_def)
qed

text \<open>
  Claim C7. A request whose \<^verbatim>\<open>Upgrade\<close> header is absent, or does not lower-case to
  \<open>websocket\<close>, is answered with status 426 and no upstream call is made. For an upgrade
  request whose upstream handshake answers with a status other than 101, the response
  has status 502 (after that one upstream call).
\<close>

theorem upgrade_proxy_status_codes:
  "(\<not> (\<exists>h. upgrade req = Some h \<and> toLowerCase h = ''websocket'') \<longrightarrow>
      GET_ws up serverId req = (text_response 426 ''Expected Upgrade: websocket'', []) \<and>
      resp_status (fst (GET_ws up serverId req)) = 426 \<and> snd (GET_ws up serverId req) = [])
   \<and> ((\<exists>h. upgrade req = Some h \<and> toLowerCase h = ''websocket'') \<and>
       up (handshake_call serverId req) = WsResponse st hs \<and> st \<noteq> 101 \<longrightarrow>
        GET_ws up serverId req =
          (text_response 502 ''Failed to upgrade connection'', [handshake_call serverId req]) \<and>
        resp_status (fst (GET_ws up serverId req)) = 502)"
proof (intro conjI impI)
  assume a: "\<not> (\<exists>h. upgrade req = Some h \<and> toLowerCase h = ''websocket'')"
  then show r: "GET_ws up serverId req = (text_response 426 ''Expected Upgrade: websocket'', [])"
    by (rule GET_ws_rejects)
  show "resp_status (fst (GET_ws up serverId req)) = 426"
    by (simp only: r fst_conv) (simp add: text_response_def)
  show "snd (GET_ws up serverId req) = []"
    by (simp only: r snd_conv)
next
  assume a: "(\<exists>h. upgrade req = Some h \<and> toLowerCase h = ''websocket'') \<and>
       up (handshake_call serverId req) = WsResponse st hs \<and> st \<noteq> 101"
  then obtain h where h: "upgrade req = Some h" "toLowerCase h = ''websocket''" by blast
  from GET_ws_upgrade [OF h, of up serverId] a
  show r: "GET_ws up serverId req =
          (text_response 502 ''Failed to upgrade connection'', [handshake_call serverId req])"
    by simp
  show "resp_status (fst (GET_ws up serverId req)) = 502"
    by (simp only: r fst_conv) (simp add: text_response_def)
qed

text \<open>
  No header and a foreign protocol give 426 without a call; \<open>WebSocket\<close> in mixed case is
  accepted, the console channel is derived from the path, and the refused handshake
  (403) gives 502.
\<close>

theorem upgrade_proxy_status_codes_witness:
  "GET_ws refusing_upstream ''abc'' plain_request =
     (text_response 426 ''Expected Upgrade: websocket'', []) \<and>
   GET_ws refusing_upstream ''abc'' (plain_request\<lparr>upgrade := Some ''h2c''\<rparr>) =
     (text_response 426 ''Expected Upgrade: websocket'', []) \<and>
   toLowerCase ''WebSocket'' = ''websocket'' \<and>
   ws_url (handshake_call ''abc'' upgrade_request) = ''ws://localhost:8765/abc/console'' \<and>
   GET_ws refusing_upstream ''abc'' upgrade_request =
     (text_response 502 ''Failed to upgrade connection'', [handshake_call ''abc'' upgrade_request]) \<and>
   resp_status (text_response 426 ''Expected Upgrade: websocket'') = 426 \<and>
   resp_status (text_response 502 ''Failed to upgrade connection'') = 502"
proof -
  have lower: "toLowerCase ''WebSocket'' = ''websocket''"
    by code_simp
  have other: "toLowerCase ''h2c'' \<noteq> ''websocket''"
    by (simp add: toLowerCase_def)
  have none: "\<not> (\<exists>h. upgrade plain_request = Some h \<and> toLowerCase h = ''websocket'')"
    by (simp add: plain_request_def)
  have wrong: "\<not> (\<exists>h. upgrade (plain_request\<lparr>upgrade := Some ''h2c''\<rparr>) = Some h \<and>
      toLowerCase h = ''websocket'')"
    using other by simp
  have refused: "(\<exists>h. upgrade upgrade_request = Some h \<and> toLowerCase h = ''websocket'') \<and>
      refusing_upstream (handshake_call ''abc'' upgrade_request) = WsResponse 403 Map.empty \<and>
      (403::nat) \<noteq> 101"
    using lower by (simp add: upgrade_request_def refusing_upstream_def)
  have url: "ws_url (handshake_call ''abc'' upgrade_request) = ''ws://localhost:8765/abc/console''"
    by (simp add: handshake_call_def upgrade_request_def Let_def)
  have codes: "resp_status (text_response 426 ''Expected Upgrade: websocket'') = 426"
    "resp_status (text_response 502 ''Failed to upgrade connection'') = 502"
    by (simp_all add: text_response_def)
  note r1 = mp [OF upgrade_proxy_status_codes
    [of plain_request refusing_upstream "''abc''" 403 Map.empty, THEN conjunct1] none]
  note r2 = mp [OF upgrade_proxy_status_codes
    [of "plain_request\<lparr>upgrade := Some ''h2c''\<rparr>" refusing_upstream "''abc''" 403 Map.empty,
     THEN conjunct1] wrong]
  note r3 = mp [OF upgrade_proxy_status_codes
    [of upgrade_request refusing_upstream "''abc''" 403 Map.empty, THEN conjunct2] refused]
  from r1 r2 lower url r3 codes
  show ?thesis by blast
qed

section \<open>Further properties\<close>

text \<open>
  Property X1. The merge of a stream batch keeps the capacity: a batch that brings a new
  entry leaves the last 1000 entries of the store extended by the new entries (the
  oldest are dropped first), and a store of at most 1000 entries holds at most 1000
  after any message.
\<close>

theorem stream_merge_keeps_capacity:
  "(isComponentMounted s \<and>
      (\<exists>b \<in> set batch. \<not> (\<exists>x \<in> set (logs s). timestamp x = timestamp b \<and> content x = content b)) \<longrightarrow>
      logs (onmessage (Payload (Some batch)) s) =
        slice_last 1000 (fst (foldl pushEntry (logs s, False) batch)) \<and>
      length (logs (onmessage (Payload (Some batch)) s)) \<le> 1000)
   \<and> (length (logs s) \<le> 1000 \<longrightarrow> length (logs (onmessage m s)) \<le> 1000)
   \<and> slice_last 1000 xs = drop (length xs - 1000) xs"
proof (intro conjI impI)
  assume a: "isComponentMounted s \<and>
      (\<exists>b \<in> set batch. \<not> (\<exists>x \<in> set (logs s). timestamp x = timestamp b \<and> content x = content b))"
  then have "\<not> list_all (isDuplicate (logs s)) batch"
    by (simp add: list_all_iff isDuplicate_iff)
  then have upd: "snd (foldl pushEntry (logs s, False) batch)"
    by (simp add: merge_updated_iff)
  with a show "logs (onmessage (Payload (Some batch)) s) =
        slice_last 1000 (fst (foldl pushEntry (logs s, False) batch))"
    by (simp add: onmessage_logs)
  then show "length (logs (onmessage (Payload (Some batch)) s)) \<le> 1000"
    by (simp only: length_slice_last)
next
  assume le: "length (logs s) \<le> 1000"
  show "length (logs (onmessage m s)) \<le> 1000"
  proof (cases "isComponentMounted s")
    case False
    with le show ?thesis by (simp add: onmessage_unmounted)
  next
    case True
    show ?thesis
    proof (cases m)
      case Unparsable
      with le show ?thesis by (simp add: onmessage_def)
    next
      case (Payload lg)
      show ?thesis
      proof (cases lg)
        case None
        with Payload le show ?thesis by (simp add: onmessage_def)
      next
        case (Some batch)
        with Payload True le show ?thesis
          by (simp add: onmessage_logs length_slice_last)
      qed
    qed
  qed
next
  show "slice_last 1000 xs = drop (length xs - 1000) xs"
    by (simp add: slice_last_def)
qed

text \<open>One new entry on the store \<open>[a@1, b@2, c@3]\<close>, and a batch of a thousand lines.\<close>

theorem stream_merge_keeps_capacity_witness:
  "logs (onmessage (Payload (Some [entryD])) consoleC) =
     slice_last 1000 [entryA, entryB, entryC, entryD] \<and>
   length (logs (onmessage (Payload (Some [entryD])) consoleC)) \<le> 1000 \<and>
   length (logs (onmessage (Payload (Some thousand_lines)) consoleC)) \<le> 1000"
proof -
  note inst = stream_merge_keeps_capacity [of consoleC "[entryD]" "Payload (Some thousand_lines)"]
  have fresh: "isComponentMounted consoleC \<and>
      (\<exists>b \<in> set [entryD]. \<not> (\<exists>x \<in> set (logs consoleC). timestamp x = timestamp b \<and> content x = content b))"
    by (simp add: consoleC_def entry_simps)
  have small: "length (logs consoleC) \<le> 1000"
    by (simp add: consoleC_def)
  have acc: "fst (foldl pushEntry (logs consoleC, False) [entryD]) = [entryA, entryB, entryC, entryD]"
    by (simp add: consoleC_def pushEntry_apply isDuplicate_def entry_simps)
  have "logs (onmessage (Payload (Some [entryD])) consoleC) =
        slice_last 1000 (fst (foldl pushEntry (logs consoleC, False) [entryD])) \<and>
      length (logs (onmessage (Payload (Some [entryD])) consoleC)) \<le> 1000"
    by (rule mp [OF inst [THEN conjunct1] fresh])
  from this [unfolded acc]
  have one: "logs (onmessage (Payload (Some [entryD])) consoleC) =
     slice_last 1000 [entryA, entryB, entryC, entryD] \<and>
     length (logs (onmessage (Payload (Some [entryD])) consoleC)) \<le> 1000" .
  have many: "length (logs (onmessage (Payload (Some thousand_lines)) consoleC)) \<le> 1000"
    by (rule mp [OF inst [THEN conjunct2, THEN conjunct1] small])
  from one many show ?thesis by blast
qed

text \<open>
  Property X2. While the render of the page's \<^verbatim>\<open>handleChangePort\<close> still lists a running
  server on the port that the stored \<open>currentServer\<close> carries, submitting a new port
  sends the properties update, at most the list request, and nothing else: no start
  command, whatever the new port and the backend's answers are.
\<close>

theorem change_port_sends_no_start:
  "currentServer (portConflict seen) = Some cur \<and> T \<in> set (servers seen) \<and>
     status T = Running \<and> port T = port cur \<and> sid T \<noteq> sid cur \<longrightarrow>
   snd (handleChangePort net seen newPort (st, tr)) = tr @ [PropertiesPOST (sid cur) newPort] \<or>
   snd (handleChangePort net seen newPort (st, tr)) =
     tr @ [PropertiesPOST (sid cur) newPort, ServerListGET]"
proof
  let ?P = "\<lambda>s. status s = Running \<and> port s = port cur \<and> sid s \<noteq> sid cur"
  assume a: "currentServer (portConflict seen) = Some cur \<and> T \<in> set (servers seen) \<and>
     status T = Running \<and> port T = port cur \<and> sid T \<noteq> sid cur"
  then have "find ?P (servers seen) \<noteq> None" by (auto simp: find_None_iff)
  then obtain U where U: "find ?P (servers seen) = Some U" by blast
  have blocked: "\<And>st' tr'. snd (handleServerAction net seen cur Start (st', tr')) = tr'"
    by (simp add: start_conflict [OF U])
  from a show "snd (handleChangePort net seen newPort (st, tr)) = tr @ [PropertiesPOST (sid cur) newPort] \<or>
   snd (handleChangePort net seen newPort (st, tr)) =
     tr @ [PropertiesPOST (sid cur) newPort, ServerListGET]"
    by (simp add: handleChangePort_def Let_def blocked
        split: fetch_result.split json_body.split)
qed

text \<open>The dialog of \<open>X\<close> and \<open>Y\<close> with the new port 25566.\<close>

theorem change_port_sends_no_start_witness:
  "snd (handleChangePort backendB pageB_conflict ''25566'' (pageB_conflict, [])) =
     [] @ [PropertiesPOST (sid serverY) ''25566''] \<or>
   snd (handleChangePort backendB pageB_conflict ''25566'' (pageB_conflict, [])) =
     [] @ [PropertiesPOST (sid serverY) ''25566'', ServerListGET]"
proof -
  have seen: "currentServer (portConflict pageB_conflict) = Some serverY \<and>
     serverX \<in> set (servers pageB_conflict) \<and>
     status serverX = Running \<and> port serverX = port serverY \<and> sid serverX \<noteq> sid serverY"
    by (simp add: pageB_conflict_def pageB_def serverX_def serverY_def)
  show ?thesis
    by (rule mp [OF change_port_sends_no_start seen])
qed

end
